theory Spec2Isabelle
  imports Complex_Main
begin

section \<open>Python errors and numeric conventions\<close>

text \<open>
  Every \<^verbatim>\<open>raise\<close> of the modelled Python is a value \<open>Inl e\<close> of a sum type.
  Floating-point numbers are modelled by the real numbers. \<open>NonFinite\<close> is not an
  exception: it marks a numpy computation whose floating-point result is
  \<^verbatim>\<open>nan\<close> or \<^verbatim>\<open>inf\<close> (numpy warns and carries on); such a value has no
  counterpart among the reals, so the model stops there.
\<close>

datatype error =
    TypeError
  | AttributeError
  | UnboundLocalError
  | ValueError
  | IndexError
  | StopIteration
  | ZeroDivisionError
  | NonFinite

text \<open>\<^verbatim>\<open>np.log10(x)\<close>: a real number for positive \<open>x\<close>, \<^verbatim>\<open>-inf\<close> or \<^verbatim>\<open>nan\<close> otherwise.\<close>

definition np_log10 :: "real \<Rightarrow> error + real" where
  "np_log10 x = (if 0 < x then Inr (log 10 x) else Inl NonFinite)"

text \<open>Python's scalar true division \<^verbatim>\<open>a / b\<close>.\<close>

definition py_div :: "real \<Rightarrow> real \<Rightarrow> error + real" where
  "py_div a b = (if b = 0 then Inl ZeroDivisionError else Inr (a / b))"

text \<open>numpy's elementwise division of an array by a scalar: a zero divisor makes every
  element \<^verbatim>\<open>nan\<close> or \<^verbatim>\<open>inf\<close>; an empty array stays empty.\<close>

definition np_div :: "real list \<Rightarrow> real \<Rightarrow> error + real list" where
  "np_div xs d = (if d = 0 \<and> xs \<noteq> [] then Inl NonFinite else Inr (map (\<lambda>x. x / d) xs))"

section \<open>MetParam: one bounded, possibly linked, possibly fixed parameter\<close>

text \<open>
  \<^verbatim>\<open>self.min\<close>, \<^verbatim>\<open>self.max\<close> are the fields \<open>param_min\<close>, \<open>param_max\<close> (the
  constructor's argument names), \<^verbatim>\<open>self.method\<close> is \<open>gen_method\<close>.
  \<^verbatim>\<open>self.link_method\<close> is a pair (relation, parameter); the parameter is a reference to
  another MetParam object, modelled by the attribute name under which the owning
  parameter set holds that object, so that a read through the link sees the referenced
  object's current value.
\<close>

record MetParam =
  param_min :: real
  param_max :: real
  val :: "real option"
  fixed :: bool
  gen_method :: string
  link_method :: "string option \<times> string option"

text \<open>\<^verbatim>\<open>MetParam(param_min, param_max, gen_method, default)\<close> with \<^verbatim>\<open>fixed=False\<close>.\<close>

definition MetParam_init :: "real \<Rightarrow> real \<Rightarrow> string \<Rightarrow> real option \<Rightarrow> MetParam" where
  "MetParam_init lo hi m d =
     \<lparr>param_min = lo, param_max = hi, val = d, fixed = False, gen_method = m,
      link_method = (None, None)\<rparr>"

definition linkParam :: "MetParam \<Rightarrow> string \<Rightarrow> string option \<Rightarrow> MetParam" where
  "linkParam p param m = p\<lparr>link_method := (m, Some param)\<rparr>"

section \<open>PhysicalParameters\<close>

text \<open>
  The object's parameter attributes are reached with \<^verbatim>\<open>getattr(self, name)\<close>, so they
  are a map from attribute names to MetParam objects; \<open>param_list\<close> is the ordered list
  of names. \<open>dens_co\<close> (the fitted atmosphere polynomial, computed outside this
  repository's files) is carried as given.
\<close>

record PhysicalParameters =
  dens_co :: "real list"
  P_0M :: real
  param_list :: "string list"
  attrs :: "string \<rightharpoonup> MetParam"

definition np_radians :: "real \<Rightarrow> real" where
  "np_radians d = d * pi / 180"

definition PhysicalParameters_attrs :: "(string \<times> MetParam) list" where
  "PhysicalParameters_attrs =
    [(''m_init'', MetParam_init (5 / 10 ^ 7) (1 / 10 ^ 3) ''log10'' (Some (24671 / 10 ^ 10))),
     (''v_init'', MetParam_init 11000 72000 ''uniform'' (Some 30520)),
     (''zenith_angle'', MetParam_init (np_radians 20) (np_radians 80) ''uniform''
        (Some (np_radians (392 / 10)))),
     (''rho'', MetParam_init 100 3500 ''uniform'' (Some 2000)),
     (''sigma'', MetParam_init (5 / 10 ^ 9) (3 / 10 ^ 7) ''uniform'' (Some (5 / 10 ^ 8))),
     (''erosion_height_start'', MetParam_init 70000 130000 ''uniform'' (Some 70000)),
     (''erosion_coeff'', MetParam_init 0 (1 / 10 ^ 6) ''uniform'' (Some 0)),
     (''erosion_mass_index'', MetParam_init (15 / 10) 3 ''uniform'' (Some 2)),
     (''erosion_mass_min'', MetParam_init (1 / 10 ^ 12) (1 / 10 ^ 9) ''log10''
        (Some (1 / 10 ^ 12))),
     (''erosion_mass_max'',
        linkParam (MetParam_init (1 / 10 ^ 11) (1 / 10 ^ 7) ''log10'' (Some (1 / 10 ^ 10)))
          ''erosion_mass_min'' (Some ''greater''))]"

text \<open>\<^verbatim>\<open>PhysicalParameters()\<close>, for a given atmosphere polynomial.\<close>

definition PhysicalParameters_init :: "real list \<Rightarrow> PhysicalParameters" where
  "PhysicalParameters_init dc =
     \<lparr>dens_co = dc, P_0M = 840, param_list = map fst PhysicalParameters_attrs,
      attrs = map_of PhysicalParameters_attrs\<rparr>"

text \<open>\<^verbatim>\<open>getInputs\<close>: the current values, in declaration order.\<close>

fun getInputs_loop :: "(string \<rightharpoonup> MetParam) \<Rightarrow> string list \<Rightarrow> error + real option list" where
  "getInputs_loop A [] = Inr []"
| "getInputs_loop A (n # ns) =
     (case A n of
        None \<Rightarrow> Inl AttributeError
      | Some p \<Rightarrow>
          (case getInputs_loop A ns of
             Inl e \<Rightarrow> Inl e
           | Inr vs \<Rightarrow> Inr (val p # vs)))"

definition getInputs :: "PhysicalParameters \<Rightarrow> error + real option list" where
  "getInputs P = getInputs_loop (attrs P) (param_list P)"

text \<open>
  The body of the loop of \<^verbatim>\<open>getNormalizedInputs\<close> for one parameter. A value
  \<^verbatim>\<open>None\<close> makes the arithmetic raise TypeError. A range of width zero makes the
  division fail: ZeroDivisionError in the uniform branch (Python scalars), a non-finite
  quotient in the \<^verbatim>\<open>log10\<close> branch (numpy scalars).
\<close>

definition val_normed :: "MetParam \<Rightarrow> error + real" where
  "val_normed p =
     (case val p of
        None \<Rightarrow> Inl TypeError
      | Some v \<Rightarrow>
          if gen_method p = ''log10'' then
            (case np_log10 v of Inl e \<Rightarrow> Inl e | Inr lv \<Rightarrow>
             case np_log10 (param_min p) of Inl e \<Rightarrow> Inl e | Inr lmin \<Rightarrow>
             case np_log10 (param_max p) of Inl e \<Rightarrow> Inl e | Inr lmax \<Rightarrow>
               if lmax - lmin = 0 then Inl NonFinite else Inr ((lv - lmin) / (lmax - lmin)))
          else py_div (v - param_min p) (param_max p - param_min p))"

fun getNormalizedInputs_loop :: "(string \<rightharpoonup> MetParam) \<Rightarrow> string list \<Rightarrow> error + real list" where
  "getNormalizedInputs_loop A [] = Inr []"
| "getNormalizedInputs_loop A (n # ns) =
     (case A n of
        None \<Rightarrow> Inl AttributeError
      | Some p \<Rightarrow>
          (case val_normed p of
             Inl e \<Rightarrow> Inl e
           | Inr x \<Rightarrow>
               (case getNormalizedInputs_loop A ns of
                  Inl e \<Rightarrow> Inl e
                | Inr xs \<Rightarrow> Inr (x # xs))))"

definition getNormalizedInputs :: "PhysicalParameters \<Rightarrow> error + real list" where
  "getNormalizedInputs P = getNormalizedInputs_loop (attrs P) (param_list P)"

text \<open>The body of the loop of \<^verbatim>\<open>getDenormalizedInputs\<close>; \<^verbatim>\<open>10 ** x\<close> is \<open>10 powr x\<close>.\<close>

definition val_denormed :: "MetParam \<Rightarrow> real \<Rightarrow> error + real" where
  "val_denormed p norm_val =
     (if gen_method p = ''log10'' then
        (case np_log10 (param_max p) of Inl e \<Rightarrow> Inl e | Inr lmax \<Rightarrow>
         case np_log10 (param_min p) of Inl e \<Rightarrow> Inl e | Inr lmin \<Rightarrow>
           Inr (param_min p * 10 powr (norm_val * (lmax - lmin))))
      else Inr (norm_val * (param_max p - param_min p) + param_min p))"

text \<open>\<^verbatim>\<open>zip(norm_val_list, self.param_list)\<close> stops at the shorter list.\<close>

fun getDenormalizedInputs_loop ::
  "(string \<rightharpoonup> MetParam) \<Rightarrow> real list \<Rightarrow> string list \<Rightarrow> error + real list" where
  "getDenormalizedInputs_loop A (x # xs) (n # ns) =
     (case A n of
        None \<Rightarrow> Inl AttributeError
      | Some p \<Rightarrow>
          (case val_denormed p x of
             Inl e \<Rightarrow> Inl e
           | Inr v \<Rightarrow>
               (case getDenormalizedInputs_loop A xs ns of
                  Inl e \<Rightarrow> Inl e
                | Inr vs \<Rightarrow> Inr (v # vs))))"
| "getDenormalizedInputs_loop A _ _ = Inr []"

definition getDenormalizedInputs :: "PhysicalParameters \<Rightarrow> real list \<Rightarrow> error + real list" where
  "getDenormalizedInputs P norm_val_list =
     getDenormalizedInputs_loop (attrs P) norm_val_list (param_list P)"

section \<open>Camera profiles\<close>

record ErosionSimParameters =
  starting_lim_mag :: MetParam
  ending_lim_mag :: MetParam
  peak_mag_faintest :: real
  fps :: real
  len_delay :: MetParam
  sim_height :: MetParam
  visibility_time_min :: real
  mag_noise :: real
  len_noise :: real
  data_length :: real
  ht_min :: real
  ht_max :: real
  max_duration :: real
  mag_faintest :: real
  mag_brightest :: real

definition DATA_LENGTH :: real where
  "DATA_LENGTH = 256"

definition ErosionSimParameters_init :: ErosionSimParameters where
  "ErosionSimParameters_init =
     \<lparr>starting_lim_mag = MetParam_init 5 10 ''uniform'' (Some 8),
      ending_lim_mag = MetParam_init 5 10 ''uniform'' (Some 8),
      peak_mag_faintest = 6,
      fps = 100,
      len_delay = MetParam_init (8 / 100) (15 / 100) ''uniform'' (Some (15 / 100)),
      sim_height = MetParam_init 70000 130000 ''uniform'' None,
      visibility_time_min = 2 / 10,
      mag_noise = 1 / 10,
      len_noise = 1,
      data_length = DATA_LENGTH,
      ht_min = 70000,
      ht_max = 130000,
      max_duration = 10,
      mag_faintest = 8,
      mag_brightest = - 2\<rparr>"

definition ErosionSimParametersCAMO :: ErosionSimParameters where
  "ErosionSimParametersCAMO =
     ErosionSimParameters_init
       \<lparr>starting_lim_mag := MetParam_init 5 10 ''uniform'' (Some 8),
        ending_lim_mag := MetParam_init 5 10 ''uniform'' (Some 8),
        peak_mag_faintest := 6,
        fps := 80,
        len_delay := MetParam_init (8 / 80) (15 / 80) ''uniform'' (Some (15 / 80)),
        sim_height := MetParam_init 70000 130000 ''uniform'' None,
        visibility_time_min := 2 / 10,
        mag_noise := 1 / 10,
        len_noise := 1,
        data_length := DATA_LENGTH,
        ht_min := 70000,
        ht_max := 130000,
        mag_faintest := 10,
        mag_brightest := - 2\<rparr>"

definition ErosionSimParametersCAMOWide :: ErosionSimParameters where
  "ErosionSimParametersCAMOWide =
     ErosionSimParameters_init
       \<lparr>starting_lim_mag := MetParam_init 5 10 ''uniform'' (Some 8),
        ending_lim_mag := MetParam_init 5 10 ''uniform'' (Some 8),
        peak_mag_faintest := 6,
        fps := 80,
        len_delay := MetParam_init 0 0 ''uniform'' (Some 0),
        sim_height := MetParam_init 70000 130000 ''uniform'' None,
        visibility_time_min := 2 / 10,
        mag_noise := 1 / 10,
        len_noise := 20,
        data_length := DATA_LENGTH,
        ht_min := 70000,
        ht_max := 130000,
        mag_faintest := 10,
        mag_brightest := - 2\<rparr>"

section \<open>normalizeSimulations and denormalizeSimulations\<close>

text \<open>
  \<^verbatim>\<open>len_max = phys_params.v_init.max * camera_params.data_length / camera_params.fps\<close>
  is scalar arithmetic (a zero frame rate raises); the four channels are numpy arrays,
  handled elementwise.
\<close>

definition len_max_of :: "PhysicalParameters \<Rightarrow> ErosionSimParameters \<Rightarrow> error + real" where
  "len_max_of phys_params camera_params =
     (case attrs phys_params ''v_init'' of
        None \<Rightarrow> Inl AttributeError
      | Some v_init \<Rightarrow> py_div (param_max v_init * data_length camera_params) (fps camera_params))"

definition normalizeSimulations ::
  "PhysicalParameters \<Rightarrow> ErosionSimParameters \<Rightarrow> real list \<Rightarrow> real list \<Rightarrow> real list \<Rightarrow>
     real list \<Rightarrow> error + (real list \<times> real list \<times> real list \<times> real list)" where
  "normalizeSimulations phys_params camera_params time_data ht_data len_data mag_data =
     (let len_min = 0 in
      case len_max_of phys_params camera_params of Inl e \<Rightarrow> Inl e | Inr len_max \<Rightarrow>
      case np_div time_data (max_duration camera_params) of Inl e \<Rightarrow> Inl e | Inr time_normed \<Rightarrow>
      case np_div (map (\<lambda>h. h - ht_min camera_params) ht_data)
             (ht_max camera_params - ht_min camera_params) of Inl e \<Rightarrow> Inl e | Inr ht_normed \<Rightarrow>
      case np_div (map (\<lambda>l. l - len_min) len_data) (len_max - len_min) of
        Inl e \<Rightarrow> Inl e | Inr len_normed \<Rightarrow>
      case np_div (map (\<lambda>m. mag_faintest camera_params - m) mag_data)
             (mag_faintest camera_params - mag_brightest camera_params) of
        Inl e \<Rightarrow> Inl e | Inr mag_normed \<Rightarrow>
      Inr (time_normed, ht_normed, len_normed, mag_normed))"

definition denormalizeSimulations ::
  "PhysicalParameters \<Rightarrow> ErosionSimParameters \<Rightarrow> real list \<Rightarrow> real list \<Rightarrow> real list \<Rightarrow>
     real list \<Rightarrow> error + (real list \<times> real list \<times> real list \<times> real list)" where
  "denormalizeSimulations phys_params camera_params time_data ht_data len_data mag_data =
     (let len_min = 0 in
      case len_max_of phys_params camera_params of Inl e \<Rightarrow> Inl e | Inr len_max \<Rightarrow>
      Inr (map (\<lambda>t. t * max_duration camera_params) time_data,
           map (\<lambda>h. (ht_max camera_params - ht_min camera_params) * h + ht_min camera_params)
             ht_data,
           map (\<lambda>l. (len_max - len_min) * l + len_min) len_data,
           map (\<lambda>m. (mag_faintest camera_params - mag_brightest camera_params) * m
                  + mag_faintest camera_params) mag_data))"

section \<open>PyDomainParallelizer\<close>

subsection \<open>Generators and the process pool\<close>

text \<open>
  A Python generator is a state together with a step function: \<^verbatim>\<open>next(generator)\<close>
  either yields a value and moves to the next state, or raises StopIteration (\<open>None\<close>).
  \<open>draw nxt k g\<close> is the list comprehension
  \<^verbatim>\<open>[next(generator) for i in range(k)]\<close>: the values drawn and the generator's state
  afterwards.
\<close>

fun draw :: "('s \<Rightarrow> ('a \<times> 's) option) \<Rightarrow> nat \<Rightarrow> 's \<Rightarrow> error + ('a list \<times> 's)" where
  "draw nxt 0 g = Inr ([], g)"
| "draw nxt (Suc k) g =
     (case nxt g of
        None \<Rightarrow> Inl StopIteration
      | Some (x, g') \<Rightarrow>
          (case draw nxt k g' of
             Inl e \<Rightarrow> Inl e
           | Inr (xs, g'') \<Rightarrow> Inr (x # xs, g'')))"

text \<open>
  The observable state of \<^verbatim>\<open>parallelComputeGenerator\<close>: the accumulated good
  results, the run counter \<open>total_runs\<close>, the generator's state, and the inputs the
  worker function has been invoked on so far (\<open>calls\<close>, in submission order).
  \<^verbatim>\<open>pool.map(workerFunc, input_list)\<close> invokes the worker once per input and returns
  the results in the order of the inputs. Worker functions are total.
\<close>

record ('r, 's, 'a) pcg_state =
  results :: "'r list"
  total_runs :: int
  gen :: 's
  calls :: "'a list"

text \<open>Python's slice \<^verbatim>\<open>xs[:n]\<close>; a negative \<open>n\<close> counts from the end.\<close>

definition py_slice_to :: "'a list \<Rightarrow> int \<Rightarrow> 'a list" where
  "py_slice_to xs n = (if 0 \<le> n then take (nat n) xs else take (length xs - nat (- n)) xs)"

text \<open>
  The \<^verbatim>\<open>while len(results) < req_num\<close> loop. It runs inside the pool's
  \<^verbatim>\<open>with\<close> block, and \<^verbatim>\<open>multiprocessing.Pool(processes=n_proc)\<close> raises ValueError
  for \<open>n_proc < 1\<close>, so no pool exists for such an \<open>n_proc\<close>.
\<close>

function pcg_loop ::
  "('s \<Rightarrow> ('a \<times> 's) option) \<Rightarrow> ('a \<Rightarrow> 'b) \<Rightarrow> ('b list \<Rightarrow> 'r list) \<Rightarrow> int \<Rightarrow> int \<Rightarrow> int \<Rightarrow>
     ('r, 's, 'a) pcg_state \<Rightarrow> error + ('r, 's, 'a) pcg_state" where
  "pcg_loop nxt workerFunc resultsCheckFunc req_num n_proc max_runs st =
     (if n_proc < 1 then Inl ValueError
      else if int (length (results st)) < req_num then
        (case draw nxt (nat n_proc) (gen st) of
           Inl e \<Rightarrow> Inl e
         | Inr (input_list, g') \<Rightarrow>
             (let results_temp = map workerFunc input_list;
                  st' = \<lparr>results = results st @ resultsCheckFunc results_temp,
                         total_runs = total_runs st + int (length input_list),
                         gen = g',
                         calls = calls st @ input_list\<rparr>
              in if max_runs \<le> total_runs st' then Inr st'
                 else pcg_loop nxt workerFunc resultsCheckFunc req_num n_proc max_runs st'))
      else Inr st)"
  by pat_completeness auto

lemma draw_length: "draw nxt k g = Inr (xs, g') \<Longrightarrow> length xs = k"
  by (induction k arbitrary: g xs g') (auto split: option.splits sum.splits prod.splits)

termination pcg_loop
proof (relation "measure (\<lambda>(nxt, workerFunc, resultsCheckFunc, req_num, n_proc, max_runs, st).
                   nat (max_runs - total_runs st))", goal_cases)
  case 1
  show ?case by simp
next
  case (2 n_proc st req_num nxt x2 x y xa xb max_runs)
  then show ?case
    by (auto dest!: draw_length)
qed

declare pcg_loop.simps [simp del]

text \<open>
  \<^verbatim>\<open>parallelComputeGenerator(generator, workerFunc, resultsCheckFunc, req_num, n_proc,
  results_check_kwagrs, max_runs)\<close>. \<open>cpu_count\<close> is what
  \<^verbatim>\<open>multiprocessing.cpu_count()\<close> returns; the keyword arguments of the results check
  are part of \<open>resultsCheckFunc\<close>.
\<close>

definition parallelComputeGenerator ::
  "int \<Rightarrow> ('s \<Rightarrow> ('a \<times> 's) option) \<Rightarrow> 's \<Rightarrow> ('a \<Rightarrow> 'b) \<Rightarrow> ('b list \<Rightarrow> 'r list) \<Rightarrow> int \<Rightarrow>
     int option \<Rightarrow> int option \<Rightarrow> error + ('r, 's, 'a) pcg_state" where
  "parallelComputeGenerator cpu_count nxt generator workerFunc resultsCheckFunc req_num
       n_proc_arg max_runs_arg =
     (let n_proc = (case n_proc_arg of None \<Rightarrow> cpu_count | Some n \<Rightarrow> n);
          max_runs = (case max_runs_arg of None \<Rightarrow> 10 * req_num | Some m \<Rightarrow> m)
      in if n_proc < 1 then Inl ValueError
         else
           (case draw nxt (nat req_num) generator of
              Inl e \<Rightarrow> Inl e
            | Inr (input_list, g') \<Rightarrow>
                (let st = \<lparr>results = resultsCheckFunc (map workerFunc input_list),
                           total_runs = int (length input_list),
                           gen = g',
                           calls = input_list\<rparr>
                 in if length (results st) = 0 then Inr st
                    else
                      (case pcg_loop nxt workerFunc resultsCheckFunc req_num n_proc max_runs st of
                         Inl e \<Rightarrow> Inl e
                       | Inr st' \<Rightarrow>
                           Inr (if req_num < int (length (results st'))
                                then st'\<lparr>results := py_slice_to (results st') req_num\<rparr>
                                else st')))))"


subsection \<open>domainParallelizer\<close>

text \<open>
  The local variable \<^verbatim>\<open>results\<close> of \<^verbatim>\<open>domainParallelizer\<close> is unbound, a Python
  list, or the \<^verbatim>\<open>AsyncResult\<close> that \<^verbatim>\<open>pool.starmap_async\<close> returns. Only an
  \<^verbatim>\<open>AsyncResult\<close> has a method \<^verbatim>\<open>get\<close>; it returns the workers' results in the
  order of the submitted arguments.
\<close>

datatype 'b results_var = Unbound | PyList "'b list" | AsyncResult "'b list"

fun results_get :: "'b results_var \<Rightarrow> error + 'b list" where
  "results_get Unbound = Inl UnboundLocalError"
| "results_get (PyList rs) = Inl AttributeError"
| "results_get (AsyncResult rs) = Inr rs"

text \<open>The one-core loop:
  \<^verbatim>\<open>for i, args in enumerate(domain): results = [function(*args, **kwarg_dict)]\<close>.\<close>

fun one_core_loop :: "('a \<Rightarrow> 'b) \<Rightarrow> 'a list \<Rightarrow> 'b results_var \<Rightarrow> 'b results_var" where
  "one_core_loop function [] rv = rv"
| "one_core_loop function (args # domain) rv =
     one_core_loop function domain (PyList [function args])"

definition domainParallelizer ::
  "int \<Rightarrow> 'a list \<Rightarrow> ('a \<Rightarrow> 'b) \<Rightarrow> int option \<Rightarrow> error + 'b list" where
  "domainParallelizer cpu_count domain function cores_arg =
     (let cores = (case cores_arg of None \<Rightarrow> cpu_count | Some c \<Rightarrow> c)
      in if cores = 1 then results_get (one_core_loop function domain Unbound)
         else if 1 < cores then results_get (AsyncResult (map function domain))
         else Inl ValueError)"


section \<open>ErosionSimContainer: file name and output folders\<close>










section \<open>extractSimData\<close>

subsection \<open>Magnitude samples and their comparisons\<close>

text \<open>
  The absolute magnitudes are floats that may be \<^verbatim>\<open>nan\<close> or infinite, so a sample is
  a real number, \<^verbatim>\<open>+inf\<close>, \<^verbatim>\<open>-inf\<close> or \<^verbatim>\<open>nan\<close>. Comparisons are the IEEE ones:
  every comparison with \<^verbatim>\<open>nan\<close> is false. Times, heights, lengths and the camera's
  thresholds are real numbers.
\<close>

datatype fval = Fin real | PInf | NInf | NaN

fun fle :: "fval \<Rightarrow> fval \<Rightarrow> bool" where
  "fle NaN _ = False"
| "fle _ NaN = False"
| "fle NInf _ = True"
| "fle _ PInf = True"
| "fle (Fin a) (Fin b) = (a \<le> b)"
| "fle _ _ = False"

fun flt :: "fval \<Rightarrow> fval \<Rightarrow> bool" where
  "flt NaN _ = False"
| "flt _ NaN = False"
| "flt PInf _ = False"
| "flt _ NInf = False"
| "flt (Fin a) (Fin b) = (a < b)"
| "flt _ _ = True"

definition fge :: "fval \<Rightarrow> fval \<Rightarrow> bool" where
  "fge a b = fle b a"

definition fgt :: "fval \<Rightarrow> fval \<Rightarrow> bool" where
  "fgt a b = flt b a"

definition np_isnan :: "fval \<Rightarrow> bool" where
  "np_isnan x = (x = NaN)"

definition np_isfinite :: "fval \<Rightarrow> bool" where
  "np_isfinite x = (case x of Fin r \<Rightarrow> True | _ \<Rightarrow> False)"

definition fmax2 :: "fval \<Rightarrow> fval \<Rightarrow> fval" where
  "fmax2 a b = (if fle a b then b else a)"

definition fmin2 :: "fval \<Rightarrow> fval \<Rightarrow> fval" where
  "fmin2 a b = (if fle b a then b else a)"

text \<open>
  \<^verbatim>\<open>np.nanmax\<close>: the maximum of the entries that are not \<^verbatim>\<open>nan\<close>; \<^verbatim>\<open>nan\<close> (with
  a warning) when all entries are \<^verbatim>\<open>nan\<close>; ValueError on an empty array.
  \<^verbatim>\<open>np.min\<close>: \<^verbatim>\<open>nan\<close> as soon as one entry is \<^verbatim>\<open>nan\<close>.
\<close>

definition np_nanmax :: "fval list \<Rightarrow> error + fval" where
  "np_nanmax xs =
     (if xs = [] then Inl ValueError
      else case filter (\<lambda>x. \<not> np_isnan x) xs of
             [] \<Rightarrow> Inr NaN
           | y # ys \<Rightarrow> Inr (fold fmax2 ys y))"

definition np_min :: "fval list \<Rightarrow> error + fval" where
  "np_min xs =
     (case xs of
        [] \<Rightarrow> Inl ValueError
      | y # ys \<Rightarrow> if \<exists>x \<in> set xs. np_isnan x then Inr NaN else Inr (fold fmin2 ys y))"

subsection \<open>Array operations\<close>

text \<open>\<^verbatim>\<open>np.argmax\<close> of a boolean array: the index of the first \<^verbatim>\<open>True\<close>, and 0 when
  there is none.\<close>

definition np_argmax :: "bool list \<Rightarrow> nat" where
  "np_argmax bs = (if True \<in> set bs then length (takeWhile (\<lambda>b. \<not> b) bs) else 0)"

text \<open>\<^verbatim>\<open>a[:k] = False\<close> for \<open>k \<ge> 0\<close>.\<close>

definition set_false_upto :: "nat \<Rightarrow> bool list \<Rightarrow> bool list" where
  "set_false_upto k a = replicate (min k (length a)) False @ drop k a"

text \<open>\<^verbatim>\<open>a[-k:] = False\<close> for \<open>k \<ge> 0\<close>: the slice starts \<open>k\<close> from the end, but
  \<^verbatim>\<open>-0\<close> is \<open>0\<close>, so for \<open>k = 0\<close> the slice is the whole array.\<close>

definition set_false_last :: "nat \<Rightarrow> bool list \<Rightarrow> bool list" where
  "set_false_last k a =
     (let start = (if k = 0 then 0 else length a - k)
      in take start a @ replicate (length a - start) False)"

text \<open>\<^verbatim>\<open>a[cond] = False\<close> with a boolean array \<open>cond\<close> of the same length, and the
  selection \<^verbatim>\<open>xs[mask]\<close>; a mask of another length raises IndexError.\<close>

definition set_false_where :: "bool list \<Rightarrow> bool list \<Rightarrow> error + bool list" where
  "set_false_where cond a =
     (if length cond \<noteq> length a then Inl IndexError
      else Inr (map (\<lambda>(c, b). if c then False else b) (zip cond a)))"

definition select :: "'a list \<Rightarrow> bool list \<Rightarrow> error + 'a list" where
  "select xs msk =
     (if length msk \<noteq> length xs then Inl IndexError
      else Inr (map fst (filter snd (zip xs msk))))"

text \<open>\<^verbatim>\<open>np.arange(start, stop, step)\<close> for a non-zero step:
  \<open>\<lceil>(stop - start) / step\<rceil>\<close> samples \<open>start + i * step\<close>.\<close>

definition np_arange :: "real \<Rightarrow> real \<Rightarrow> real \<Rightarrow> real list" where
  "np_arange start stop step =
     map (\<lambda>i. start + real i * step) [0 ..< nat \<lceil>(stop - start) / step\<rceil>]"

text \<open>The minimum and maximum of a non-empty array of reals.\<close>

definition np_min_real :: "real list \<Rightarrow> error + real" where
  "np_min_real xs = (case xs of [] \<Rightarrow> Inl ValueError | y # ys \<Rightarrow> Inr (fold min ys y))"

definition np_max_real :: "real list \<Rightarrow> error + real" where
  "np_max_real xs = (case xs of [] \<Rightarrow> Inl ValueError | y # ys \<Rightarrow> Inr (fold max ys y))"

subsection \<open>The steps of extractSimData\<close>

record SimulationResults =
  time_arr :: "real list"
  abs_magnitude :: "fval list"
  brightest_height_arr :: "real list"
  brightest_length_arr :: "real list"

text \<open>
  \<^verbatim>\<open>sim_results.abs_magnitude[np.isnan(sim_results.abs_magnitude)] =
  np.nanmax(sim_results.abs_magnitude)\<close>: the array after the assignment.
\<close>

definition fix_nan :: "fval list \<Rightarrow> error + fval list" where
  "fix_nan mags =
     (case np_nanmax mags of
        Inl e \<Rightarrow> Inl e
      | Inr m \<Rightarrow> Inr (map (\<lambda>x. if np_isnan x then m else x) mags))"

text \<open>
  The trim at the ending limiting magnitude:
  \<^verbatim>\<open>if abs_magnitude[-1] > ending_lim_mag:
      indices_visible[-np.argmax(abs_magnitude[::-1] <= ending_lim_mag):] = False\<close>.
\<close>

definition ending_trim :: "fval list \<Rightarrow> real \<Rightarrow> bool list \<Rightarrow> error + bool list" where
  "ending_trim mags ending_lim_mag_val indices_visible =
     (if mags = [] then Inl IndexError
      else if fgt (last mags) (Fin ending_lim_mag_val) then
        Inr (set_false_last (np_argmax (map (\<lambda>m. fle m (Fin ending_lim_mag_val)) (rev mags)))
               indices_visible)
      else Inr indices_visible)"

text \<open>The visibility mask (the block from \<^verbatim>\<open>min_lim_mag = ...\<close> to the height test).\<close>

definition indices_visible_of ::
  "ErosionSimParameters \<Rightarrow> real \<Rightarrow> real \<Rightarrow> fval list \<Rightarrow> real list \<Rightarrow> error + bool list" where
  "indices_visible_of camera_params starting_lim_mag_val ending_lim_mag_val mags hts =
     (let min_lim_mag = min starting_lim_mag_val ending_lim_mag_val;
          iv0 = replicate (length mags) True;
          iv1 = set_false_upto (np_argmax (map (\<lambda>m. fle m (Fin starting_lim_mag_val)) mags)) iv0
      in case ending_trim mags ending_lim_mag_val iv1 of Inl e \<Rightarrow> Inl e | Inr iv2 \<Rightarrow>
         case set_false_where (map (\<lambda>m. fge m (Fin min_lim_mag)) mags) iv2 of
           Inl e \<Rightarrow> Inl e | Inr iv3 \<Rightarrow>
         set_false_where
           (map (\<lambda>h. ht_max camera_params < h \<or> h < ht_min camera_params) hts) iv3)"

text \<open>
  The tracking delay: \<^verbatim>\<open>len_sampled[time_sampled < len_delay] = 0\<close>, then
  \<^verbatim>\<open>first_length_index = np.argwhere(time_sampled >= len_delay)[0][0]\<close> (IndexError when
  no sample is at or after the delay), then
  \<^verbatim>\<open>len_sampled[first_length_index:] -= len_sampled[first_length_index]\<close>, where the
  subtracted value is read once, before the subtraction.
\<close>

definition zero_before_delay :: "real list \<Rightarrow> real \<Rightarrow> real list \<Rightarrow> error + real list" where
  "zero_before_delay time_sampled d len_sampled =
     (if length time_sampled \<noteq> length len_sampled then Inl IndexError
      else Inr (map (\<lambda>(t, l). if t < d then 0 else l) (zip time_sampled len_sampled)))"

definition first_length_index_of :: "real list \<Rightarrow> real \<Rightarrow> error + nat" where
  "first_length_index_of time_sampled d =
     (if \<exists>t \<in> set time_sampled. d \<le> t
      then Inr (length (takeWhile (\<lambda>t. \<not> d \<le> t) time_sampled))
      else Inl IndexError)"

definition rebase_from :: "nat \<Rightarrow> real list \<Rightarrow> real list" where
  "rebase_from i ls = take i ls @ map (\<lambda>l. l - ls ! i) (drop i ls)"

definition tracking_delay :: "real list \<Rightarrow> real \<Rightarrow> real list \<Rightarrow> error + real list" where
  "tracking_delay time_sampled d len_sampled =
     (case zero_before_delay time_sampled d len_sampled of Inl e \<Rightarrow> Inl e | Inr ls \<Rightarrow>
      case first_length_index_of time_sampled d of Inl e \<Rightarrow> Inl e | Inr first_length_index \<Rightarrow>
      Inr (rebase_from first_length_index ls))"

text \<open>
  What \<^verbatim>\<open>extractSimData\<close> has computed when it reaches \<^verbatim>\<open>if check_only\<close>: the
  resampled, re-zeroed time axis and the three resampled channels.
\<close>

record sampled =
  time_sampled :: "real list"
  mag_sampled :: "real list"
  ht_sampled :: "real list"
  len_sampled :: "real list"

text \<open>Sequencing of steps that may raise: the first error ends the computation.\<close>

definition sum_bind :: "error + 'a \<Rightarrow> ('a \<Rightarrow> error + 'b) \<Rightarrow> error + 'b" where
  "sum_bind m f = (case m of Inl e \<Rightarrow> Inl e | Inr x \<Rightarrow> f x)"

text \<open>
  \<^verbatim>\<open>extractSimData\<close> up to \<^verbatim>\<open>if check_only\<close>, for given simulation results, camera
  parameters and drawn values \<open>starting_lim_mag\<close>, \<open>ending_lim_mag\<close>, \<open>len_delay\<close>.
  \<open>Inr None\<close> is \<^verbatim>\<open>return None\<close> (the run is rejected). \<open>CubicSpline\<close> stands for
  \<^verbatim>\<open>scipy.interpolate.CubicSpline\<close>, which is outside this repository: from the visible
  times and values it gives an interpolant, or raises.

  First part: the magnitude fix, the peak test, the visibility mask and the minimum
  visible time; the result is the visible time, magnitude, height and length arrays.
\<close>

definition visible_segment ::
  "ErosionSimParameters \<Rightarrow> real \<Rightarrow> real \<Rightarrow> SimulationResults \<Rightarrow>
     error + (real list \<times> fval list \<times> real list \<times> real list) option" where
  "visible_segment camera_params starting_lim_mag_val ending_lim_mag_val sim_results =
     sum_bind (fix_nan (abs_magnitude sim_results)) (\<lambda>mags.
     sum_bind (np_min mags) (\<lambda>peak.
     if fge peak (Fin (peak_mag_faintest camera_params)) then Inr None
     else
     sum_bind (indices_visible_of camera_params starting_lim_mag_val ending_lim_mag_val mags
                (brightest_height_arr sim_results)) (\<lambda>indices_visible.
     if True \<notin> set indices_visible then Inr None
     else
     sum_bind (select (time_arr sim_results) indices_visible) (\<lambda>time_visible.
     sum_bind (np_max_real (map (\<lambda>t. t - hd time_visible) time_visible)) (\<lambda>duration.
     if duration < visibility_time_min camera_params then Inr None
     else
     sum_bind (select mags indices_visible) (\<lambda>mag_visible.
     sum_bind (select (brightest_height_arr sim_results) indices_visible) (\<lambda>ht_visible.
     sum_bind (select (brightest_length_arr sim_results) indices_visible) (\<lambda>len_visible.
     Inr (Some (time_visible, mag_visible, ht_visible, len_visible))))))))))"

text \<open>Second part: the splines, the resampling at the frame rate, the re-zeroed time
  axis, the tracking delay and the test for a positive length.\<close>

definition resample ::
  "(real list \<Rightarrow> fval list \<Rightarrow> error + (real \<Rightarrow> real)) \<Rightarrow> ErosionSimParameters \<Rightarrow> real \<Rightarrow>
     real list \<Rightarrow> fval list \<Rightarrow> real list \<Rightarrow> real list \<Rightarrow> error + sampled option" where
  "resample CubicSpline camera_params len_delay_val time_visible mag_visible ht_visible
       len_visible =
     sum_bind (CubicSpline time_visible mag_visible) (\<lambda>mag_interpol.
     sum_bind (CubicSpline time_visible (map Fin ht_visible)) (\<lambda>ht_interpol.
     sum_bind (CubicSpline time_visible (map Fin len_visible)) (\<lambda>len_interpol.
     sum_bind (np_min_real time_visible) (\<lambda>t_min.
     sum_bind (np_max_real time_visible) (\<lambda>t_max.
     sum_bind (py_div 1 (fps camera_params)) (\<lambda>step.
     let ts = np_arange t_min t_max step;
         ms = map mag_interpol ts;
         hs = map ht_interpol ts;
         ls = map len_interpol ts
     in if ts = [] then Inl IndexError
        else
        let ts0 = map (\<lambda>t. t - hd ts) ts
        in sum_bind (tracking_delay ts0 len_delay_val ls) (\<lambda>ls'.
           if \<not> (\<exists>l \<in> set ls'. 0 < l) then Inr None
           else Inr (Some \<lparr>time_sampled = ts0, mag_sampled = ms, ht_sampled = hs,
                            len_sampled = ls'\<rparr>))))))))"

definition extractSimData ::
  "(real list \<Rightarrow> fval list \<Rightarrow> error + (real \<Rightarrow> real)) \<Rightarrow> ErosionSimParameters \<Rightarrow>
     real \<Rightarrow> real \<Rightarrow> real \<Rightarrow> SimulationResults \<Rightarrow> error + sampled option" where
  "extractSimData CubicSpline camera_params starting_lim_mag_val ending_lim_mag_val len_delay_val
       sim_results =
     sum_bind (visible_segment camera_params starting_lim_mag_val ending_lim_mag_val sim_results)
       (\<lambda>seg. case seg of
          None \<Rightarrow> Inr None
        | Some (time_visible, mag_visible, ht_visible, len_visible) \<Rightarrow>
            resample CubicSpline camera_params len_delay_val time_visible mag_visible ht_visible
              len_visible)"


section \<open>Drawing the parameters: generateVal and getConst\<close>

text \<open>
  \<^verbatim>\<open>local_state.uniform(lo, hi)\<close> belongs to numpy's random generator, which is outside
  this repository: \<open>uniform\<close> is a parameter that, from the generator's state and the two
  bounds, gives the drawn number and the generator's next state.

  The bounds \<^verbatim>\<open>(_min, _max)\<close> of \<^verbatim>\<open>generateVal\<close>: a link reads the current value of the
  referenced parameter object; \<^verbatim>\<open>max\<close> or \<^verbatim>\<open>min\<close> with a value \<^verbatim>\<open>None\<close> raises
  TypeError.
\<close>

definition link_bounds :: "(string \<rightharpoonup> MetParam) \<Rightarrow> MetParam \<Rightarrow> error + (real \<times> real)" where
  "link_bounds A p =
     (if fst (link_method p) = Some ''greater'' \<or> fst (link_method p) = Some ''less'' then
        (case snd (link_method p) of
           None \<Rightarrow> Inl AttributeError
         | Some q \<Rightarrow>
             (case A q of
                None \<Rightarrow> Inl AttributeError
              | Some linked \<Rightarrow>
                  (case val linked of
                     None \<Rightarrow> Inl TypeError
                   | Some r \<Rightarrow>
                       if fst (link_method p) = Some ''greater''
                       then Inr (max r (param_min p), param_max p)
                       else Inr (param_min p, min (param_max p) r))))
      else Inr (param_min p, param_max p))"

text \<open>
  \<^verbatim>\<open>generateVal(local_state)\<close> on the parameter object held under \<open>name\<close>: the
  objects after the call, the generator's state, and the returned value. A fixed
  parameter returns its value unchanged; a method other than \<^verbatim>\<open>'uniform'\<close> and
  \<^verbatim>\<open>'log10'\<close> draws nothing.
\<close>

definition generateVal ::
  "('g \<Rightarrow> real \<Rightarrow> real \<Rightarrow> real \<times> 'g) \<Rightarrow> (string \<rightharpoonup> MetParam) \<Rightarrow> string \<Rightarrow> 'g \<Rightarrow>
     error + ((string \<rightharpoonup> MetParam) \<times> 'g \<times> real option)" where
  "generateVal uniform A name local_state =
     (case A name of
        None \<Rightarrow> Inl AttributeError
      | Some p \<Rightarrow>
          if fixed p then Inr (A, local_state, val p)
          else
            sum_bind (link_bounds A p) (\<lambda>(lo, hi).
              if gen_method p = ''uniform'' then
                (let (u, g') = uniform local_state lo hi
                 in Inr (A(name \<mapsto> p\<lparr>val := Some u\<rparr>), g', Some u))
              else if gen_method p = ''log10'' then
                sum_bind (np_log10 lo) (\<lambda>llo.
                sum_bind (np_log10 hi) (\<lambda>lhi.
                  (let (u, g') = uniform local_state llo lhi
                   in Inr (A(name \<mapsto> p\<lparr>val := Some (10 powr u)\<rparr>), g', Some (10 powr u)))))
              else Inr (A, local_state, val p)))"

text \<open>
  The constants object that \<^verbatim>\<open>getConst\<close> fills in: the attributes it sets, with the
  sampled parameters in the order of assignment (\<^verbatim>\<open>setattr(const, param_name, p.val)\<close>).
\<close>

record Constants =
  const_dens_co :: "real list"
  P_0m :: real
  lum_eff_type :: int
  erosion_on :: bool
  erosion_height_change :: real
  disruption_on :: bool
  sampled_params :: "(string \<times> real option) list"

text \<open>The condition \<^verbatim>\<open>p.val is None or override or p.val > p.max or p.val < p.min\<close>.\<close>

definition needs_draw :: "bool \<Rightarrow> MetParam \<Rightarrow> bool" where
  "needs_draw override p =
     (case val p of
        None \<Rightarrow> True
      | Some v \<Rightarrow> override \<or> param_max p < v \<or> v < param_min p)"

text \<open>The loop of \<^verbatim>\<open>getConst\<close> over \<^verbatim>\<open>self.param_list\<close>.\<close>

fun getConst_loop ::
  "('g \<Rightarrow> real \<Rightarrow> real \<Rightarrow> real \<times> 'g) \<Rightarrow> bool \<Rightarrow> string list \<Rightarrow>
     (string \<rightharpoonup> MetParam) \<times> 'g \<times> (string \<times> real option) list \<Rightarrow>
     error + ((string \<rightharpoonup> MetParam) \<times> 'g \<times> (string \<times> real option) list)" where
  "getConst_loop uniform override [] s = Inr s"
| "getConst_loop uniform override (param_name # rest) (A, local_state, c) =
     (case A param_name of
        None \<Rightarrow> Inl AttributeError
      | Some p \<Rightarrow>
          sum_bind (if needs_draw override p then generateVal uniform A param_name local_state
                    else Inr (A, local_state, val p)) (\<lambda>(A', g', v).
            getConst_loop uniform override rest (A', g', c @ [(param_name, v)])))"

text \<open>
  \<^verbatim>\<open>getConst(random_seed, override, erosion)\<close>; \<open>local_state\<close> is the generator
  \<^verbatim>\<open>np.random.RandomState(random_seed)\<close>. \<open>getConst_run\<close> gives the returned constants
  together with the parameter set after the call (the call assigns to the parameter
  objects) and the generator's state; \<open>getConst\<close> is the returned value alone.
\<close>

definition getConst_run ::
  "('g \<Rightarrow> real \<Rightarrow> real \<Rightarrow> real \<times> 'g) \<Rightarrow> PhysicalParameters \<Rightarrow> 'g \<Rightarrow> bool \<Rightarrow> bool \<Rightarrow>
     error + (Constants \<times> PhysicalParameters \<times> 'g)" where
  "getConst_run uniform P local_state override erosion =
     sum_bind (getConst_loop uniform override (param_list P) (attrs P, local_state, []))
       (\<lambda>(A', g', c).
          Inr (\<lparr>const_dens_co = dens_co P, P_0m = P_0M P, lum_eff_type = 0,
                erosion_on = erosion, erosion_height_change = 0, disruption_on = False,
                sampled_params = c\<rparr>,
               P\<lparr>attrs := A'\<rparr>, g'))"

definition getConst ::
  "('g \<Rightarrow> real \<Rightarrow> real \<Rightarrow> real \<times> 'g) \<Rightarrow> PhysicalParameters \<Rightarrow> 'g \<Rightarrow> bool \<Rightarrow> bool \<Rightarrow>
     error + Constants" where
  "getConst uniform P local_state override erosion =
     sum_bind (getConst_run uniform P local_state override erosion) (\<lambda>(c, P', g'). Inr c)"

section \<open>Round trips of the simulated channels\<close>

lemma np_div_Inr_map:
  assumes "np_div xs d = Inr ys"
  shows "map (\<lambda>y. d * y + c) ys = map (\<lambda>x. x + c) xs"
proof (cases "xs = []")
  case True
  with assms show ?thesis by (simp add: np_div_def)
next
  case False
  with assms have "d \<noteq> 0" and "ys = map (\<lambda>x. x / d) xs"
    by (auto simp: np_div_def split: if_splits)
  then show ?thesis by simp
qed

text \<open>
  C10. Whenever \<^verbatim>\<open>normalizeSimulations\<close> returns its four arrays,
  \<^verbatim>\<open>denormalizeSimulations\<close> with the same parameter objects returns the original
  time, height and length arrays exactly, and on the magnitude channel it returns
  \<open>2 * mag_faintest - magnitude\<close> elementwise instead of the original magnitude.
\<close>

theorem denormalize_normalize_channels:
  assumes "normalizeSimulations phys_params camera_params time_data ht_data len_data mag_data
             = Inr (time_normed, ht_normed, len_normed, mag_normed)"
  shows "denormalizeSimulations phys_params camera_params time_normed ht_normed len_normed
             mag_normed
           = Inr (time_data, ht_data, len_data,
                  map (\<lambda>m. 2 * mag_faintest camera_params - m) mag_data)"
proof -
  from assms obtain len_max where
    lm: "len_max_of phys_params camera_params = Inr len_max" and
    t: "np_div time_data (max_duration camera_params) = Inr time_normed" and
    h: "np_div (map (\<lambda>h. h - ht_min camera_params) ht_data)
          (ht_max camera_params - ht_min camera_params) = Inr ht_normed" and
    l: "np_div (map (\<lambda>l. l - 0) len_data) (len_max - 0) = Inr len_normed" and
    m: "np_div (map (\<lambda>m. mag_faintest camera_params - m) mag_data)
          (mag_faintest camera_params - mag_brightest camera_params) = Inr mag_normed"
    by (auto simp: normalizeSimulations_def Let_def split: sum.splits)
  have t': "map (\<lambda>t. t * max_duration camera_params) time_normed = time_data"
    using np_div_Inr_map [OF t, of 0] by (simp add: mult.commute)
  have h': "map (\<lambda>h. (ht_max camera_params - ht_min camera_params) * h + ht_min camera_params)
              ht_normed = ht_data"
    using np_div_Inr_map [OF h, of "ht_min camera_params"] by (simp add: comp_def)
  have l': "map (\<lambda>l. (len_max - 0) * l + 0) len_normed = len_data"
    using np_div_Inr_map [OF l, of 0] by simp
  have m': "map (\<lambda>m. (mag_faintest camera_params - mag_brightest camera_params) * m
                  + mag_faintest camera_params) mag_normed
            = map (\<lambda>m. 2 * mag_faintest camera_params - m) mag_data"
    using np_div_Inr_map [OF m, of "mag_faintest camera_params"]
    by (simp add: comp_def algebra_simps)
  show ?thesis
    using lm t' h' l' m' by (simp add: denormalizeSimulations_def Let_def)
qed

lemma len_max_CAMO:
  "len_max_of (PhysicalParameters_init dc) ErosionSimParametersCAMO = Inr 230400"
  by (simp add: len_max_of_def PhysicalParameters_init_def PhysicalParameters_attrs_def
      ErosionSimParametersCAMO_def ErosionSimParameters_init_def MetParam_init_def py_div_def
      DATA_LENGTH_def)

lemma CAMO_fields:
  "max_duration ErosionSimParametersCAMO = 10"
  "ht_min ErosionSimParametersCAMO = 70000"
  "ht_max ErosionSimParametersCAMO = 130000"
  "mag_faintest ErosionSimParametersCAMO = 10"
  "mag_brightest ErosionSimParametersCAMO = - 2"
  by (simp_all add: ErosionSimParametersCAMO_def ErosionSimParameters_init_def)

theorem denormalize_normalize_channels_witness:
  "normalizeSimulations (PhysicalParameters_init []) ErosionSimParametersCAMO
       [1] [100000] [720] [5]
     = Inr ([1 / 10], [1 / 2], [1 / 320], [5 / 12])
   \<and> denormalizeSimulations (PhysicalParameters_init []) ErosionSimParametersCAMO
        [1 / 10] [1 / 2] [1 / 320] [5 / 12]
     = Inr ([1], [100000], [720], [15])"
proof -
  have n: "normalizeSimulations (PhysicalParameters_init []) ErosionSimParametersCAMO
             [1] [100000] [720] [5] = Inr ([1 / 10], [1 / 2], [1 / 320], [5 / 12])"
    by (simp add: normalizeSimulations_def len_max_CAMO np_div_def CAMO_fields)
  from denormalize_normalize_channels [OF n] n show ?thesis
    by (simp add: CAMO_fields)
qed

section \<open>Round trip of the physical parameters\<close>

lemma val_roundtrip:
  assumes v: "val p = Some v"
    and lt: "param_min p < param_max p"
    and lo: "param_min p \<le> v"
    and hi: "v \<le> param_max p"
    and pos: "gen_method p = ''log10'' \<longrightarrow> 0 < param_min p"
  shows "\<exists>x. val_normed p = Inr x \<and> val_denormed p x = Inr v"
proof (cases "gen_method p = ''log10''")
  case True
  with pos have mpos: "0 < param_min p" by simp
  with lo lt have vpos: "0 < v" and xpos: "0 < param_max p" by linarith+
  have "log 10 (param_min p) < log 10 (param_max p)"
    using lt mpos xpos by simp
  then have ne: "log 10 (param_max p) - log 10 (param_min p) \<noteq> 0"
    by simp
  let ?d = "log 10 (param_max p) - log 10 (param_min p)"
  let ?x = "(log 10 v - log 10 (param_min p)) / ?d"
  have n: "val_normed p = Inr ?x"
    using True v mpos vpos xpos ne by (simp add: val_normed_def np_log10_def)
  have "?x * ?d = log 10 v - log 10 (param_min p)"
    using ne by simp
  then have "param_min p * 10 powr (?x * ?d) = param_min p * 10 powr (log 10 v - log 10 (param_min p))"
    by simp
  also have "\<dots> = param_min p * (v / param_min p)"
    using vpos mpos by (simp add: powr_diff)
  also have "\<dots> = v"
    using mpos by simp
  finally have d: "val_denormed p ?x = Inr v"
    using True mpos xpos by (simp add: val_denormed_def np_log10_def)
  from n d show ?thesis by blast
next
  case False
  let ?x = "(v - param_min p) / (param_max p - param_min p)"
  have n: "val_normed p = Inr ?x"
    using False v lt by (simp add: val_normed_def py_div_def)
  have d: "val_denormed p ?x = Inr v"
    using False lt by (simp add: val_denormed_def)
  from n d show ?thesis by blast
qed

lemma roundtrip_loop:
  assumes "\<forall>n\<in>set ns. \<exists>p v. A n = Some p \<and> val p = Some v \<and> param_min p < param_max p
             \<and> param_min p \<le> v \<and> v \<le> param_max p
             \<and> (gen_method p = ''log10'' \<longrightarrow> 0 < param_min p)"
  shows "\<exists>norm vs. getNormalizedInputs_loop A ns = Inr norm
           \<and> getDenormalizedInputs_loop A norm ns = Inr vs
           \<and> getInputs_loop A ns = Inr (map Some vs)"
  using assms
proof (induction ns)
  case Nil
  then show ?case by simp
next
  case (Cons n ns)
  from Cons.prems obtain p v where p: "A n = Some p" "val p = Some v"
    and r: "param_min p < param_max p" "param_min p \<le> v" "v \<le> param_max p"
      "gen_method p = ''log10'' \<longrightarrow> 0 < param_min p"
    by auto
  from val_roundtrip [OF p(2) r] obtain x where x: "val_normed p = Inr x" "val_denormed p x = Inr v"
    by blast
  from Cons.IH Cons.prems obtain norm vs where
    ih: "getNormalizedInputs_loop A ns = Inr norm" "getDenormalizedInputs_loop A norm ns = Inr vs"
      "getInputs_loop A ns = Inr (map Some vs)"
    by auto
  have "getNormalizedInputs_loop A (n # ns) = Inr (x # norm)"
    using p x ih by simp
  moreover have "getDenormalizedInputs_loop A (x # norm) (n # ns) = Inr (v # vs)"
    using p x ih by simp
  moreover have "getInputs_loop A (n # ns) = Inr (map Some (v # vs))"
    using p ih by simp
  ultimately show ?case by blast
qed

text \<open>
  C5. For a parameter set in which every listed parameter holds a value inside its range
  \<open>[param_min, param_max]\<close>, with \<open>param_min < param_max\<close> and a positive
  \<open>param_min\<close> for the \<^verbatim>\<open>log10\<close> kind, \<^verbatim>\<open>getNormalizedInputs\<close> returns a list,
  and \<^verbatim>\<open>getDenormalizedInputs\<close> applied to it returns exactly the values that
  \<^verbatim>\<open>getInputs\<close> reads off the parameters, in order, for both distribution kinds.
\<close>

theorem getDenormalizedInputs_getNormalizedInputs:
  assumes "\<forall>n\<in>set (param_list P). \<exists>p v. attrs P n = Some p \<and> val p = Some v
             \<and> param_min p < param_max p \<and> param_min p \<le> v \<and> v \<le> param_max p
             \<and> (gen_method p = ''log10'' \<longrightarrow> 0 < param_min p)"
  shows "\<exists>norm vs. getNormalizedInputs P = Inr norm
           \<and> getDenormalizedInputs P norm = Inr vs
           \<and> getInputs P = Inr (map Some vs)"
  using roundtrip_loop [OF assms]
  by (simp add: getNormalizedInputs_def getDenormalizedInputs_def getInputs_def)

lemma in_range_case:
  "(\<exists>p v. x = Some p \<and> val p = Some v \<and> R p v) \<longleftrightarrow>
   (case x of None \<Rightarrow> False | Some p \<Rightarrow> (case val p of None \<Rightarrow> False | Some v \<Rightarrow> R p v))"
  by (auto split: option.splits)

lemma PhysicalParameters_defaults_in_range:
  "\<forall>n\<in>set (param_list (PhysicalParameters_init dc)).
     \<exists>p v. attrs (PhysicalParameters_init dc) n = Some p \<and> val p = Some v
       \<and> param_min p < param_max p \<and> param_min p \<le> v \<and> v \<le> param_max p
       \<and> (gen_method p = ''log10'' \<longrightarrow> 0 < param_min p)"
  apply (simp only: in_range_case)
  apply (simp add: PhysicalParameters_init_def PhysicalParameters_attrs_def MetParam_init_def
      linkParam_def np_radians_def)
  done

lemma getInputs_defaults:
  "getInputs (PhysicalParameters_init dc) =
     Inr [Some (24671 / 10 ^ 10), Some 30520, Some (np_radians (392 / 10)), Some 2000,
          Some (5 / 10 ^ 8), Some 70000, Some 0, Some 2, Some (1 / 10 ^ 12), Some (1 / 10 ^ 10)]"
  by (simp add: getInputs_def PhysicalParameters_init_def PhysicalParameters_attrs_def MetParam_init_def
      linkParam_def)

theorem getDenormalizedInputs_getNormalizedInputs_witness:
  "\<exists>norm. getNormalizedInputs (PhysicalParameters_init []) = Inr norm
      \<and> getDenormalizedInputs (PhysicalParameters_init []) norm =
          Inr [24671 / 10 ^ 10, 30520, np_radians (392 / 10), 2000,
               5 / 10 ^ 8, 70000, 0, 2, 1 / 10 ^ 12, 1 / 10 ^ 10]"
proof -
  from getDenormalizedInputs_getNormalizedInputs [OF PhysicalParameters_defaults_in_range [of "[]"]]
  obtain norm vs where
    n: "getNormalizedInputs (PhysicalParameters_init []) = Inr norm" and
    d: "getDenormalizedInputs (PhysicalParameters_init []) norm = Inr vs" and
    g: "getInputs (PhysicalParameters_init []) = Inr (map Some vs)"
    by blast
  from g have "map Some vs = [Some (24671 / 10 ^ 10), Some 30520, Some (np_radians (392 / 10)), Some 2000,
          Some (5 / 10 ^ 8), Some 70000, Some 0, Some 2, Some (1 / 10 ^ 12), Some (1 / 10 ^ 10)]"
    by (simp add: getInputs_defaults)
  then have "vs = [24671 / 10 ^ 10, 30520, np_radians (392 / 10), 2000,
               5 / 10 ^ 8, 70000, 0, 2, 1 / 10 ^ 12, 1 / 10 ^ 10]"
    by (auto simp: map_eq_Cons_conv)
  with n d show ?thesis by blast
qed

section \<open>The generate-until-satisfied loop and the bounded map\<close>




text \<open>
  C7. For a required count \<open>req_num \<ge> 1\<close> (and a pool that can be created), if the
  results check applied to the results of the initial batch of exactly \<open>req_num\<close>
  worker invocations returns the empty list, \<^verbatim>\<open>parallelComputeGenerator\<close> returns the
  empty list at once: the worker has been invoked on the \<open>req_num\<close> initial inputs only
  (\<open>calls\<close>, \<open>total_runs\<close>), and the generator is in the state reached after exactly
  those \<open>req_num\<close> draws.
\<close>

theorem parallelComputeGenerator_initial_batch_empty:
  assumes req: "1 \<le> req_num"
    and pool: "1 \<le> (case n_proc_arg of None \<Rightarrow> cpu_count | Some n \<Rightarrow> n)"
    and init: "draw nxt (nat req_num) generator = Inr (input_list, g')"
    and bad: "resultsCheckFunc (map workerFunc input_list) = []"
  shows "parallelComputeGenerator cpu_count nxt generator workerFunc resultsCheckFunc req_num
             n_proc_arg max_runs_arg
           = Inr \<lparr>results = [], total_runs = req_num, gen = g', calls = input_list\<rparr>
         \<and> int (length input_list) = req_num"
proof -
  from draw_length [OF init] req have len: "int (length input_list) = req_num"
    by simp
  with pool init bad show ?thesis
    by (simp add: parallelComputeGenerator_def Let_def)
qed










lemma all_bad_example:
  "draw (\<lambda>k::nat. Some (k, Suc k)) (nat 3) 0 = Inr ([0, 1, 2], 3)"
  by (simp add: eval_nat_numeral)

theorem parallelComputeGenerator_initial_batch_empty_witness:
  "parallelComputeGenerator 4 (\<lambda>k::nat. Some (k, Suc k)) 0 (\<lambda>x. x * x) (filter (\<lambda>x. False)) 3
       (Some 2) None
     = Inr \<lparr>results = [], total_runs = 3, gen = 3, calls = [0, 1, 2]\<rparr>"
proof -
  have req: "(1::int) \<le> 3" by simp
  have pool: "(1::int) \<le> (case Some 2 of None \<Rightarrow> 4 | Some n \<Rightarrow> n)" by simp
  have bad: "filter (\<lambda>x. False) (map (\<lambda>x::nat. x * x) [0, 1, 2]) = []" by simp
  from parallelComputeGenerator_initial_batch_empty
    [where resultsCheckFunc = "filter (\<lambda>x. False)" and workerFunc = "\<lambda>x::nat. x * x"
       and cpu_count = 4 and n_proc_arg = "Some 2" and max_runs_arg = None,
     OF req pool all_bad_example bad]
  show ?thesis by simp
qed

text \<open>
  C1. With \<open>cores = 1\<close> \<^verbatim>\<open>domainParallelizer\<close> never returns a list of results: the
  loop keeps only a one-element list holding the last call's result, and the final
  \<^verbatim>\<open>results.get()\<close> raises AttributeError on that list (UnboundLocalError when the
  domain is empty).
\<close>

theorem domainParallelizer_one_core:
  "domainParallelizer cpu_count domain function (Some 1)
     = Inl (if domain = [] then UnboundLocalError else AttributeError)"
proof -
  have "one_core_loop function domain rv = (if domain = [] then rv else PyList [function (last domain)])"
    for rv
    by (induction domain arbitrary: rv) auto
  then show ?thesis
    by (simp add: domainParallelizer_def)
qed

text \<open>With more than one core the results come back in the order of the arguments.\<close>

lemma domainParallelizer_pool:
  "1 < cores \<Longrightarrow> domainParallelizer cpu_count domain function (Some cores) = Inr (map function domain)"
  by (simp add: domainParallelizer_def)

lemma domainParallelizer_one_core_example:
  "domainParallelizer 4 [1, 2, 3] (\<lambda>x::int. x * x) (Some 1) = Inl AttributeError"
  by (simp add: domainParallelizer_def)

section \<open>Output folders\<close>










section \<open>extractSimData: non-finite magnitudes\<close>

lemma np_isfinite_iff: "np_isfinite x \<longleftrightarrow> (\<exists>r. x = Fin r)"
  by (cases x) (simp_all add: np_isfinite_def)

lemma np_isfiniteI: "x \<noteq> NaN \<Longrightarrow> x \<noteq> PInf \<Longrightarrow> x \<noteq> NInf \<Longrightarrow> np_isfinite x"
  by (cases x) (simp_all add: np_isfinite_def)

lemma fle_refl: "x \<noteq> NaN \<Longrightarrow> fle x x"
  by (cases x) auto

lemma fle_total: "a \<noteq> NaN \<Longrightarrow> b \<noteq> NaN \<Longrightarrow> fle a b \<or> fle b a"
  by (cases a; cases b) auto

lemma fle_trans: "fle a b \<Longrightarrow> fle b c \<Longrightarrow> fle a c"
  by (cases a; cases b; cases c) auto

lemma fmax2_cases: "fmax2 a b = a \<or> fmax2 a b = b"
  by (simp add: fmax2_def)

lemma fold_fmax2_mem: "fold fmax2 ys y \<in> set (y # ys)"
proof (induction ys arbitrary: y)
  case Nil
  show ?case by simp
next
  case (Cons z zs)
  from Cons.IH [of "fmax2 z y"] fmax2_cases [of z y] show ?case by auto
qed

lemma fold_fmax2_ge:
  "y \<noteq> NaN \<Longrightarrow> \<forall>x \<in> set ys. x \<noteq> NaN \<Longrightarrow> \<forall>x \<in> set (y # ys). fle x (fold fmax2 ys y)"
proof (induction ys arbitrary: y)
  case Nil
  then show ?case by (simp add: fle_refl)
next
  case (Cons z zs)
  have n: "fmax2 z y \<noteq> NaN" using Cons.prems fmax2_cases [of z y] by auto
  have ih: "\<forall>x \<in> set (fmax2 z y # zs). fle x (fold fmax2 zs (fmax2 z y))"
    using Cons.IH [OF n] Cons.prems by simp
  have zy: "fle z (fmax2 z y)" "fle y (fmax2 z y)"
    using Cons.prems fle_total [of z y] by (auto simp: fmax2_def fle_refl)
  from ih have top: "fle (fmax2 z y) (fold fmax2 zs (fmax2 z y))" by simp
  from zy top have "fle z (fold fmax2 zs (fmax2 z y))" "fle y (fold fmax2 zs (fmax2 z y))"
    by (auto intro: fle_trans)
  with ih show ?case by simp
qed

lemma np_nanmax_cases:
  assumes "mags \<noteq> []"
  shows "(np_nanmax mags = Inr NaN \<and> (\<forall>x \<in> set mags. x = NaN))
       \<or> (\<exists>m. np_nanmax mags = Inr m \<and> m \<noteq> NaN \<and> m \<in> set mags
             \<and> (\<forall>x \<in> set mags. x \<noteq> NaN \<longrightarrow> fle x m))"
proof (cases "filter (\<lambda>x. \<not> np_isnan x) mags")
  case Nil
  then have "\<forall>x \<in> set mags. x = NaN"
    by (auto simp: filter_empty_conv np_isnan_def)
  with Nil assms show ?thesis by (simp add: np_nanmax_def)
next
  case (Cons y ys)
  let ?m = "fold fmax2 ys y"
  have s: "set (y # ys) = {x \<in> set mags. x \<noteq> NaN}"
    using Cons [symmetric] by (auto simp: np_isnan_def)
  then have yn: "y \<noteq> NaN" and ysn: "\<forall>x \<in> set ys. x \<noteq> NaN" by auto
  have mem: "?m \<in> set (y # ys)" by (rule fold_fmax2_mem)
  with s have m1: "?m \<noteq> NaN" "?m \<in> set mags" by auto
  from fold_fmax2_ge [OF yn ysn] s have "\<forall>x \<in> set mags. x \<noteq> NaN \<longrightarrow> fle x ?m"
    by blast
  with m1 Cons assms show ?thesis by (simp add: np_nanmax_def)
qed

text \<open>
  C3 (as the code has it). On a non-empty magnitude array the first step never rejects
  and never raises: every \<^verbatim>\<open>nan\<close> entry is replaced by \<^verbatim>\<open>np.nanmax\<close> of the array and
  every other entry, infinite ones included, is left as it is. When the array has a
  finite entry and no infinite entry, that replacement value is the largest finite
  magnitude of the run and all samples are finite afterwards.
\<close>

theorem fix_nan_replaces_nan:
  assumes "mags \<noteq> []"
  shows "\<exists>m out. np_nanmax mags = Inr m \<and> fix_nan mags = Inr out
           \<and> length out = length mags
           \<and> (\<forall>i < length mags. out ! i = (if np_isnan (mags ! i) then m else mags ! i))
           \<and> ((\<exists>x \<in> set mags. np_isfinite x) \<and> (\<forall>x \<in> set mags. x \<noteq> PInf \<and> x \<noteq> NInf) \<longrightarrow>
                np_isfinite m \<and> m \<in> set mags
                \<and> (\<forall>x \<in> set mags. np_isfinite x \<longrightarrow> fle x m)
                \<and> (\<forall>x \<in> set out. np_isfinite x))"
proof -
  from np_nanmax_cases [OF assms] obtain m where
    m: "np_nanmax mags = Inr m" and
    c: "(m = NaN \<and> (\<forall>x \<in> set mags. x = NaN))
        \<or> (m \<noteq> NaN \<and> m \<in> set mags \<and> (\<forall>x \<in> set mags. x \<noteq> NaN \<longrightarrow> fle x m))"
    by blast
  let ?out = "map (\<lambda>x. if np_isnan x then m else x) mags"
  have f: "fix_nan mags = Inr ?out" using m by (simp add: fix_nan_def)
  have fin: "np_isfinite m \<and> m \<in> set mags
             \<and> (\<forall>x \<in> set mags. np_isfinite x \<longrightarrow> fle x m) \<and> (\<forall>x \<in> set ?out. np_isfinite x)"
    if some: "\<exists>x \<in> set mags. np_isfinite x" and noinf: "\<forall>x \<in> set mags. x \<noteq> PInf \<and> x \<noteq> NInf"
  proof -
    from some have "\<not> (\<forall>x \<in> set mags. x = NaN)" by (auto simp: np_isfinite_iff)
    with c have m2: "m \<noteq> NaN" "m \<in> set mags" "\<forall>x \<in> set mags. x \<noteq> NaN \<longrightarrow> fle x m" by auto
    from m2(1,2) noinf have mf: "np_isfinite m"
      by (auto intro: np_isfiniteI)
    have "np_isfinite x" if "x \<in> set ?out" for x
    proof -
      from that obtain y where y: "y \<in> set mags" "x = (if np_isnan y then m else y)" by auto
      show ?thesis
      proof (cases "np_isnan y")
        case True with y mf show ?thesis by simp
      next
        case False
        with y noinf show ?thesis by (auto intro: np_isfiniteI simp: np_isnan_def)
      qed
    qed
    moreover have "\<forall>x \<in> set mags. np_isfinite x \<longrightarrow> fle x m"
      using m2(3) by (auto simp: np_isfinite_iff)
    ultimately show ?thesis using mf m2(2) by blast
  qed
  from m f fin show ?thesis by (intro exI [of _ m] exI [of _ ?out]) simp
qed

text \<open>
  The claim as stated fails on infinite entries: they are not replaced, and a
  \<^verbatim>\<open>nan\<close> beside \<^verbatim>\<open>+inf\<close> is replaced by \<^verbatim>\<open>+inf\<close>, not by the largest finite
  magnitude.
\<close>

theorem fix_nan_counterexample:
  "fix_nan [Fin 1, NaN, PInf] = Inr [Fin 1, PInf, PInf] \<and> \<not> np_isfinite PInf"
  by (simp add: fix_nan_def np_nanmax_def np_isnan_def np_isfinite_def fmax2_def)

lemma fix_nan_example:
  "np_nanmax [Fin 1, NaN, Fin 3] = Inr (Fin 3) \<and> fix_nan [Fin 1, NaN, Fin 3] = Inr [Fin 1, Fin 3, Fin 3]"
  by (simp add: fix_nan_def np_nanmax_def np_isnan_def fmax2_def)

theorem fix_nan_replaces_nan_witness:
  "fix_nan [Fin 1, NaN, Fin 3] = Inr [Fin 1, Fin 3, Fin 3]
   \<and> np_isfinite (Fin 1) \<and> np_isfinite (Fin 3)"
proof -
  have ne: "[Fin 1, NaN, Fin 3] \<noteq> []" by simp
  from fix_nan_replaces_nan [OF ne] fix_nan_example show ?thesis
    by (auto simp: np_isfinite_def)
qed

section \<open>extractSimData: the trim at the ending limiting magnitude\<close>

lemma fgt_not_fle: "fgt a b \<Longrightarrow> \<not> fle a b"
  by (cases a; cases b) (auto simp: fgt_def)

lemma trailing_char:
  "i < length xs \<Longrightarrow>
     (length xs - length (takeWhile (\<lambda>x. \<not> P x) (rev xs)) \<le> i)
       \<longleftrightarrow> (\<forall>j. i \<le> j \<and> j < length xs \<longrightarrow> \<not> P (xs ! j))"
proof (induction xs arbitrary: i rule: rev_induct)
  case Nil
  then show ?case by simp
next
  case (snoc x ys)
  show ?case
  proof (cases "P x")
    case True
    have "\<not> (\<forall>j. i \<le> j \<and> j < length (ys @ [x]) \<longrightarrow> \<not> P ((ys @ [x]) ! j))"
      using True snoc.prems by (auto intro!: exI [of _ "length ys"])
    with True snoc.prems show ?thesis by simp
  next
    case False
    show ?thesis
    proof (cases "i < length ys")
      case True
      have "(\<forall>j. i \<le> j \<and> j < length (ys @ [x]) \<longrightarrow> \<not> P ((ys @ [x]) ! j))
              \<longleftrightarrow> (\<forall>j. i \<le> j \<and> j < length ys \<longrightarrow> \<not> P (ys ! j))"
        using False by (auto simp: nth_append less_Suc_eq)
      with snoc.IH [OF True] False show ?thesis by simp
    next
      case ge: False
      with snoc.prems have i: "i = length ys" by simp
      have "\<forall>j. i \<le> j \<and> j < length (ys @ [x]) \<longrightarrow> \<not> P ((ys @ [x]) ! j)"
        using False i by (auto simp: nth_append)
      with i False show ?thesis by simp
    qed
  qed
qed

lemma np_argmax_rev:
  "np_argmax (map P (rev xs)) =
     (if \<exists>x \<in> set xs. P x then length (takeWhile (\<lambda>x. \<not> P x) (rev xs)) else 0)"
  by (auto simp: np_argmax_def takeWhile_map comp_def)

lemma set_false_last_nth:
  "i < length a \<Longrightarrow> set_false_last k a ! i = (a ! i \<and> k \<noteq> 0 \<and> i < length a - k)"
  by (auto simp: set_false_last_def Let_def nth_append)

lemma set_false_last_length: "length (set_false_last k a) = length a"
  by (simp add: set_false_last_def Let_def)

text \<open>
  C2 (as the code has it). The backward trim at the ending limiting magnitude is applied
  exactly when the final magnitude sample is fainter than the ending threshold
  (numerically greater). It then marks False every sample that lies after the last
  sample at or below the threshold (all samples when there is none); a sample is left
  as it was when the final sample is at or below the threshold, or when some sample from
  it onwards is at or below the threshold.
\<close>

theorem ending_trim_when_last_fainter:
  assumes ne: "mags \<noteq> []" and len: "length indices_visible = length mags"
  shows "\<exists>out. ending_trim mags ending_lim_mag_val indices_visible = Inr out
           \<and> length out = length mags
           \<and> (\<forall>i < length mags.
                 out ! i = (indices_visible ! i
                   \<and> \<not> (fgt (last mags) (Fin ending_lim_mag_val)
                        \<and> (\<forall>j. i \<le> j \<and> j < length mags \<longrightarrow>
                               \<not> fle (mags ! j) (Fin ending_lim_mag_val)))))
           \<and> (\<not> fgt (last mags) (Fin ending_lim_mag_val) \<longrightarrow> out = indices_visible)"
proof (cases "fgt (last mags) (Fin ending_lim_mag_val)")
  case False
  with ne len show ?thesis by (simp add: ending_trim_def)
next
  case True
  let ?P = "\<lambda>m. fle m (Fin ending_lim_mag_val)"
  let ?k = "np_argmax (map ?P (rev mags))"
  let ?t = "length (takeWhile (\<lambda>m. \<not> ?P m) (rev mags))"
  let ?out = "set_false_last ?k indices_visible"
  have out: "ending_trim mags ending_lim_mag_val indices_visible = Inr ?out"
    using True ne by (simp add: ending_trim_def)
  have lastP: "\<not> ?P (last mags)" using True by (rule fgt_not_fle)
  have nth: "?out ! i = (indices_visible ! i
               \<and> \<not> (\<forall>j. i \<le> j \<and> j < length mags \<longrightarrow> \<not> ?P (mags ! j)))"
    if i: "i < length mags" for i
  proof (cases "\<exists>x \<in> set mags. ?P x")
    case ex: True
    then have k: "?k = ?t" by (simp add: np_argmax_rev)
    have "?t \<noteq> 0"
      using ne lastP by (simp add: takeWhile_eq_Nil_iff hd_rev)
    moreover have "(i < length mags - ?t) \<longleftrightarrow> \<not> (length mags - ?t \<le> i)" by auto
    ultimately show ?thesis
      using i len k trailing_char [OF i, of ?P] by (simp add: set_false_last_nth)
  next
    case nex: False
    then have k: "?k = 0" by (simp add: np_argmax_rev)
    have "\<forall>j. i \<le> j \<and> j < length mags \<longrightarrow> \<not> ?P (mags ! j)"
      using nex by auto
    with i len k show ?thesis by (simp add: set_false_last_nth)
  qed
  from out nth True len show ?thesis
    by (intro exI [of _ ?out]) (simp add: set_false_last_length)
qed

text \<open>
  The claim as stated has the condition the wrong way round: with threshold 8, the run
  \<open>[7, 9]\<close> ends fainter than the threshold (its final sample is not brighter) and is
  trimmed, and the run \<open>[9, 7]\<close> ends brighter than the threshold and is not.
\<close>

theorem ending_trim_counterexample:
  "ending_trim [Fin 7, Fin 9] 8 [True, True] = Inr [True, False]
   \<and> \<not> flt (Fin 9) (Fin 8)
   \<and> ending_trim [Fin 9, Fin 7] 8 [True, True] = Inr [True, True]
   \<and> flt (Fin 7) (Fin 8)"
  by (simp add: ending_trim_def fgt_def np_argmax_def set_false_last_def)

lemma ending_trim_example:
  "ending_trim [Fin 9, Fin 7, Fin 9, Fin 10] 8 [True, True, True, True]
     = Inr [True, True, False, False]"
  by (simp add: ending_trim_def fgt_def np_argmax_def set_false_last_def)

theorem ending_trim_when_last_fainter_witness:
  "ending_trim [Fin 9, Fin 7, Fin 9, Fin 10] 8 [True, True, True, True]
     = Inr [True, True, False, False]
   \<and> fgt (last [Fin 9, Fin 7, Fin 9, Fin 10]) (Fin 8)
   \<and> length [True, True, False, False] = length [Fin 9, Fin 7, Fin 9, Fin 10]"
proof -
  have ne: "[Fin 9, Fin 7, Fin 9, Fin 10] \<noteq> []" by simp
  have len: "length [True, True, True, True] = length [Fin 9, Fin 7, Fin 9, Fin 10]" by simp
  from ending_trim_when_last_fainter [OF ne len, of 8] ending_trim_example
  show ?thesis by (auto simp: fgt_def)
qed

section \<open>extractSimData: the tracking delay\<close>

lemma sum_bind_Inr: "sum_bind m f = Inr y \<longleftrightarrow> (\<exists>x. m = Inr x \<and> f x = Inr y)"
  by (cases m) (simp_all add: sum_bind_def)

lemma rebase_from_nth:
  "i < length zs \<Longrightarrow> f \<le> length zs \<Longrightarrow>
     rebase_from f zs ! i = (if i < f then zs ! i else zs ! i - zs ! f)"
  by (auto simp: rebase_from_def nth_append min_def)

lemma tracking_delay_props:
  assumes s: "sorted ts" and td: "tracking_delay ts d ls = Inr ls'"
  shows "length ls' = length ts"
    and "\<forall>i < length ts. ts ! i < d \<longrightarrow> ls' ! i = 0"
    and "\<forall>i < length ts. d \<le> ts ! i \<and> (\<forall>j < i. ts ! j < d) \<longrightarrow> ls' ! i = 0"
    and "\<exists>i < length ts. d \<le> ts ! i"
proof -
  define zs where "zs = map (\<lambda>(t, l). if t < d then 0 else l) (zip ts ls)"
  define f where "f = length (takeWhile (\<lambda>t. \<not> d \<le> t) ts)"
  from td have len: "length ts = length ls"
    by (auto simp: tracking_delay_def zero_before_delay_def split: if_splits sum.splits)
  from td have ex: "\<exists>t \<in> set ts. d \<le> t"
    by (auto simp: tracking_delay_def first_length_index_of_def split: if_splits sum.splits)
  from td len ex have out: "ls' = rebase_from f zs"
    by (auto simp: tracking_delay_def zero_before_delay_def first_length_index_of_def zs_def f_def)
  have zlen: "length zs = length ts" using len by (simp add: zs_def)
  have znth: "zs ! i = (if ts ! i < d then 0 else ls ! i)" if "i < length ts" for i
    using that len by (simp add: zs_def)
  have "f \<noteq> length ts"
  proof
    assume "f = length ts"
    then have "takeWhile (\<lambda>t. \<not> d \<le> t) ts = ts"
      using takeWhile_eq_take [of "\<lambda>t. \<not> d \<le> t" ts] by (simp add: f_def)
    then have "\<forall>t \<in> set ts. \<not> d \<le> t" by (simp only: takeWhile_eq_all_conv)
    with ex show False by blast
  qed
  with length_takeWhile_le [of "\<lambda>t. \<not> d \<le> t" ts] have flt: "f < length ts"
    by (simp add: f_def)
  have fge: "d \<le> ts ! f"
    using nth_length_takeWhile [of "\<lambda>t. \<not> d \<le> t" ts] flt by (simp add: f_def)
  have before: "ts ! j < d" if "j < f" for j
  proof -
    from that have "takeWhile (\<lambda>t. \<not> d \<le> t) ts ! j \<in> set (takeWhile (\<lambda>t. \<not> d \<le> t) ts)"
      by (simp add: f_def)
    then have "\<not> d \<le> takeWhile (\<lambda>t. \<not> d \<le> t) ts ! j" by (rule set_takeWhileD [THEN conjunct2])
    moreover have "takeWhile (\<lambda>t. \<not> d \<le> t) ts ! j = ts ! j"
      using that by (simp add: takeWhile_nth f_def)
    ultimately show ?thesis by simp
  qed
  have after: "d \<le> ts ! i" if "f \<le> i" "i < length ts" for i
    using s that fge sorted_nth_mono [of ts f i] by simp
  show "length ls' = length ts" by (simp add: out rebase_from_def zlen)
  show "\<forall>i < length ts. ts ! i < d \<longrightarrow> ls' ! i = 0"
  proof (intro allI impI)
    fix i assume i: "i < length ts" and lt: "ts ! i < d"
    have "i < f" using after [of i] i lt by (cases "i < f") auto
    with i flt lt show "ls' ! i = 0"
      by (simp add: out rebase_from_nth zlen znth)
  qed
  show "\<forall>i < length ts. d \<le> ts ! i \<and> (\<forall>j < i. ts ! j < d) \<longrightarrow> ls' ! i = 0"
  proof (intro allI impI)
    fix i assume i: "i < length ts" and h: "d \<le> ts ! i \<and> (\<forall>j < i. ts ! j < d)"
    have "\<not> i < f" using before [of i] h by auto
    moreover have "\<not> f < i" using h fge by auto
    ultimately have "i = f" by simp
    with i show "ls' ! i = 0"
      by (simp add: out rebase_from_nth zlen)
  qed
  show "\<exists>i < length ts. d \<le> ts ! i" using flt fge by blast
qed

lemma sorted_np_arange: "0 \<le> step \<Longrightarrow> sorted (np_arange start stop step)"
  by (auto simp: np_arange_def sorted_iff_nth_mono intro!: mult_right_mono)

lemma fold_min_le: "fold min ys (y::real) \<le> y"
proof (induction ys arbitrary: y)
  case Nil show ?case by simp
next
  case (Cons z zs)
  have "fold min zs (min z y) \<le> min z y" by (rule Cons.IH)
  then show ?case by simp
qed

lemma fold_max_ge: "(y::real) \<le> fold max ys y"
proof (induction ys arbitrary: y)
  case Nil show ?case by simp
next
  case (Cons z zs)
  have "max z y \<le> fold max zs (max z y)" by (rule Cons.IH)
  then show ?case by simp
qed

lemma np_min_le_max:
  assumes "np_min_real xs = Inr a" and "np_max_real xs = Inr b"
  shows "a \<le> b"
proof (cases xs)
  case Nil
  with assms show ?thesis by (simp add: np_min_real_def)
next
  case (Cons y ys)
  with assms have "a = fold min ys y" "b = fold max ys y"
    by (simp_all add: np_min_real_def np_max_real_def)
  with fold_min_le [of ys y] fold_max_ge [of y ys] show ?thesis by simp
qed

lemma resample_props:
  assumes "resample CubicSpline camera_params d time_visible mag_visible ht_visible len_visible
             = Inr (Some r)"
  shows "\<exists>ts ls. sorted ts \<and> time_sampled r = map (\<lambda>t. t - hd ts) ts
           \<and> tracking_delay (map (\<lambda>t. t - hd ts) ts) d ls = Inr (len_sampled r)"
proof -
  from assms obtain len_interpol t_min t_max step where
    mn: "np_min_real time_visible = Inr t_min" and
    mx: "np_max_real time_visible = Inr t_max" and
    st: "py_div 1 (fps camera_params) = Inr step" and
    ne: "np_arange t_min t_max step \<noteq> []" and
    td: "tracking_delay (map (\<lambda>t. t - hd (np_arange t_min t_max step)) (np_arange t_min t_max step))
           d (map len_interpol (np_arange t_min t_max step)) = Inr (len_sampled r)" and
    ts: "time_sampled r = map (\<lambda>t. t - hd (np_arange t_min t_max step)) (np_arange t_min t_max step)"
    by (auto simp: resample_def sum_bind_Inr Let_def split: if_splits)
  from ne have "0 < (t_max - t_min) / step"
    by (simp add: np_arange_def)
  moreover from np_min_le_max [OF mn mx] have "0 \<le> t_max - t_min" by simp
  ultimately have "0 < step"
    by (auto simp: zero_less_divide_iff)
  then have "sorted (np_arange t_min t_max step)" by (simp add: sorted_np_arange)
  with td ts show ?thesis by blast
qed

text \<open>
  C4. For every run that \<^verbatim>\<open>extractSimData\<close> does not reject, with drawn tracking delay
  \<open>d\<close>: the length channel has one sample per resampled time, every length sample whose
  re-zeroed time is below \<open>d\<close> is exactly zero, and the length sample at the first
  resampled time at or after \<open>d\<close> is exactly zero; such a time exists in every accepted
  run.
\<close>

theorem extractSimData_tracking_delay:
  assumes "extractSimData CubicSpline camera_params starting_lim_mag_val ending_lim_mag_val d
             sim_results = Inr (Some r)"
  shows "length (len_sampled r) = length (time_sampled r)
       \<and> (\<forall>i < length (time_sampled r). time_sampled r ! i < d \<longrightarrow> len_sampled r ! i = 0)
       \<and> (\<forall>i < length (time_sampled r).
             d \<le> time_sampled r ! i \<and> (\<forall>j < i. time_sampled r ! j < d) \<longrightarrow> len_sampled r ! i = 0)
       \<and> (\<exists>i < length (time_sampled r). d \<le> time_sampled r ! i)"
proof -
  from assms obtain time_visible mag_visible ht_visible len_visible where
    "resample CubicSpline camera_params d time_visible mag_visible ht_visible len_visible
       = Inr (Some r)"
    by (auto simp: extractSimData_def sum_bind_Inr split: option.splits)
  from resample_props [OF this] obtain ts ls where
    s: "sorted ts" and t: "time_sampled r = map (\<lambda>t. t - hd ts) ts" and
    td: "tracking_delay (map (\<lambda>t. t - hd ts) ts) d ls = Inr (len_sampled r)"
    by blast
  have "sorted (map (\<lambda>t. t - hd ts) ts)"
    using s by (simp add: sorted_iff_nth_mono)
  from tracking_delay_props [OF this td] t show ?thesis by simp
qed

lemma extract_example:
  "extractSimData (\<lambda>ts vs. Inr (\<lambda>t. 1000 * t)) (ErosionSimParameters_init\<lparr>fps := 10\<rparr>) 8 8 (5 / 100)
     \<lparr>time_arr = [0, 1 / 10, 2 / 10, 3 / 10, 4 / 10, 5 / 10],
      abs_magnitude = [Fin 9, Fin 5, Fin 5, Fin 5, Fin 5, Fin 9],
      brightest_height_arr = [100000, 99000, 98000, 97000, 96000, 95000],
      brightest_length_arr = [0, 100, 200, 300, 400, 500]\<rparr>
   = Inr (Some \<lparr>time_sampled = [0, 1 / 10, 2 / 10], mag_sampled = [100, 200, 300],
                 ht_sampled = [100, 200, 300], len_sampled = [0, 0, 100]\<rparr>)"
  by code_simp

theorem extractSimData_tracking_delay_witness:
  "extractSimData (\<lambda>ts vs. Inr (\<lambda>t. 1000 * t)) (ErosionSimParameters_init\<lparr>fps := 10\<rparr>) 8 8 (5 / 100)
     \<lparr>time_arr = [0, 1 / 10, 2 / 10, 3 / 10, 4 / 10, 5 / 10],
      abs_magnitude = [Fin 9, Fin 5, Fin 5, Fin 5, Fin 5, Fin 9],
      brightest_height_arr = [100000, 99000, 98000, 97000, 96000, 95000],
      brightest_length_arr = [0, 100, 200, 300, 400, 500]\<rparr>
   = Inr (Some \<lparr>time_sampled = [0, 1 / 10, 2 / 10], mag_sampled = [100, 200, 300],
                 ht_sampled = [100, 200, 300], len_sampled = [0, 0, 100]\<rparr>)
   \<and> length [0, 0, 100 :: real] = length [0, 1 / 10, 2 / 10 :: real]
   \<and> [0, 0, 100 :: real] ! 0 = 0 \<and> [0, 0, 100 :: real] ! 1 = 0"
  using extractSimData_tracking_delay [OF extract_example] extract_example
  by simp

section \<open>Linked parameters after getConst\<close>

lemma generateVal_frame:
  assumes "generateVal uniform A n g = Inr (A', g', v)"
  shows "\<exists>p. A n = Some p \<and> A' = A(n \<mapsto> p\<lparr>val := v\<rparr>)"
proof -
  from assms obtain p where p: "A n = Some p"
    by (auto simp: generateVal_def split: option.splits)
  have triv: "A(n \<mapsto> p\<lparr>val := val p\<rparr>) = A" using p by (simp add: map_upd_triv)
  from assms p have "A' = A(n \<mapsto> p\<lparr>val := v\<rparr>)"
    by (auto simp: generateVal_def sum_bind_Inr triv Let_def case_prod_beta split: if_splits)
  with p show ?thesis by blast
qed

lemma getConst_loop_Cons:
  assumes "getConst_loop uniform override (n # rest) (A, g, c) = Inr s'"
  shows "\<exists>p A1 g1 v. A n = Some p \<and> A1 = A(n \<mapsto> p\<lparr>val := v\<rparr>)
           \<and> (if needs_draw override p then generateVal uniform A n g = Inr (A1, g1, v)
               else (A1, g1, v) = (A, g, val p))
           \<and> getConst_loop uniform override rest (A1, g1, c @ [(n, v)]) = Inr s'"
proof (cases "A n")
  case None
  with assms show ?thesis by simp
next
  case (Some p)
  let ?step = "if needs_draw override p then generateVal uniform A n g else Inr (A, g, val p)"
  from assms Some have
    "sum_bind ?step (\<lambda>(A', g', v). getConst_loop uniform override rest (A', g', c @ [(n, v)]))
       = Inr s'"
    by simp
  then obtain t where t: "?step = Inr t" and
    r: "(\<lambda>(A', g', v). getConst_loop uniform override rest (A', g', c @ [(n, v)])) t = Inr s'"
    unfolding sum_bind_Inr by blast
  obtain A1 g1 v where t3: "t = (A1, g1, v)" by (cases t) auto
  from r t3 have rest: "getConst_loop uniform override rest (A1, g1, c @ [(n, v)]) = Inr s'"
    by simp
  have A1: "A1 = A(n \<mapsto> p\<lparr>val := v\<rparr>)"
  proof (cases "needs_draw override p")
    case True
    with t t3 have "generateVal uniform A n g = Inr (A1, g1, v)" by simp
    from generateVal_frame [OF this] Some show ?thesis by simp
  next
    case False
    with t t3 have "A1 = A" "v = val p" by simp_all
    with Some show ?thesis by (simp add: map_upd_triv)
  qed
  have "if needs_draw override p then generateVal uniform A n g = Inr (A1, g1, v)
               else (A1, g1, v) = (A, g, val p)"
  proof (cases "needs_draw override p")
    case True
    with t t3 show ?thesis by simp
  next
    case False
    with t t3 show ?thesis by simp
  qed
  with Some A1 rest show ?thesis by blast
qed

lemma getConst_loop_frame:
  "getConst_loop uniform override ns (A, g, c) = Inr (A', g', c') \<Longrightarrow>
     (\<forall>m. m \<notin> set ns \<longrightarrow> A' m = A m)
     \<and> (\<exists>new. c' = c @ new \<and> map fst new = ns
           \<and> (distinct ns \<longrightarrow> (\<forall>m v. (m, v) \<in> set new \<longrightarrow> (\<exists>p'. A' m = Some p' \<and> val p' = v))))"
proof (induction ns arbitrary: A g c)
  case Nil
  then show ?case by simp
next
  case (Cons n rest)
  from getConst_loop_Cons [OF Cons.prems] obtain p A1 g1 v where
    p: "A n = Some p" and A1: "A1 = A(n \<mapsto> p\<lparr>val := v\<rparr>)" and
    rest: "getConst_loop uniform override rest (A1, g1, c @ [(n, v)]) = Inr (A', g', c')"
    by blast
  note ih = Cons.IH [OF rest]
  from ih have fr: "\<forall>m. m \<notin> set rest \<longrightarrow> A' m = A1 m" by (rule conjunct1)
  from ih have "\<exists>new. c' = (c @ [(n, v)]) @ new \<and> map fst new = rest
           \<and> (distinct rest \<longrightarrow> (\<forall>m v. (m, v) \<in> set new \<longrightarrow> (\<exists>p'. A' m = Some p' \<and> val p' = v)))"
    by (rule conjunct2)
  then obtain new where
    c': "c' = (c @ [(n, v)]) @ new" and names: "map fst new = rest" and
    vals: "distinct rest \<longrightarrow> (\<forall>m v. (m, v) \<in> set new \<longrightarrow> (\<exists>p'. A' m = Some p' \<and> val p' = v))"
    by (elim exE conjE)
  have 1: "\<forall>m. m \<notin> set (n # rest) \<longrightarrow> A' m = A m"
    using fr A1 by simp
  have 2: "c' = c @ ((n, v) # new)" using c' by simp
  have 3: "map fst ((n, v) # new) = n # rest" using names by simp
  have 4: "distinct (n # rest) \<longrightarrow>
             (\<forall>m w. (m, w) \<in> set ((n, v) # new) \<longrightarrow> (\<exists>p'. A' m = Some p' \<and> val p' = w))"
  proof (intro impI allI)
    fix m w
    assume d: "distinct (n # rest)" and mem: "(m, w) \<in> set ((n, v) # new)"
    from d fr have "A' n = A1 n" by simp
    with A1 have An: "A' n = Some (p\<lparr>val := v\<rparr>)" by simp
    from mem have "(m, w) = (n, v) \<or> (m, w) \<in> set new" by simp
    then show "\<exists>p'. A' m = Some p' \<and> val p' = w"
    proof
      assume "(m, w) = (n, v)"
      with An show ?thesis by simp
    next
      assume "(m, w) \<in> set new"
      with d vals show ?thesis by simp
    qed
  qed
  have "\<exists>new'. c' = c @ new' \<and> map fst new' = n # rest
           \<and> (distinct (n # rest) \<longrightarrow>
                (\<forall>m w. (m, w) \<in> set new' \<longrightarrow> (\<exists>p'. A' m = Some p' \<and> val p' = w)))"
    using 2 3 4 by (intro exI [of _ "(n, v) # new"] conjI)
  with 1 show ?case by (intro conjI)
qed

lemma getConst_loop_append:
  "getConst_loop uniform override (xs @ ys) s
     = sum_bind (getConst_loop uniform override xs s) (getConst_loop uniform override ys)"
proof (induction xs arbitrary: s)
  case Nil
  show ?case by (simp add: sum_bind_def)
next
  case (Cons n rest)
  obtain A g c where s: "s = (A, g, c)" by (cases s) auto
  show ?case
  proof (cases "A n")
    case None
    then show ?thesis by (simp add: s sum_bind_def)
  next
    case (Some p)
    show ?thesis
    proof (cases "if needs_draw override p then generateVal uniform A n g else Inr (A, g, val p)")
      case (Inl e)
      with Some show ?thesis by (simp add: s sum_bind_def)
    next
      case (Inr t)
      obtain A1 g1 v where t: "t = (A1, g1, v)" by (cases t) auto
      with Inr Some Cons.IH [of "(A1, g1, c @ [(n, v)])"] show ?thesis
        by (simp add: s sum_bind_def)
    qed
  qed
qed

lemma link_bounds_linked:
  assumes "link_method mp = (Some rel, Some q)" and "rel = ''greater'' \<or> rel = ''less''"
    and "A q = Some mq" and "val mq = Some r"
  shows "link_bounds A mp =
           Inr (if rel = ''greater'' then (max r (param_min mp), param_max mp)
                else (param_min mp, min (param_max mp) r))"
  using assms by (auto simp: link_bounds_def)

lemma generateVal_linked:
  fixes uniform :: "'g \<Rightarrow> real \<Rightarrow> real \<Rightarrow> real \<times> 'g"
  assumes unif: "\<forall>g lo hi. lo \<le> hi \<longrightarrow> lo \<le> fst (uniform g lo hi) \<and> fst (uniform g lo hi) \<le> hi"
    and mp: "A p = Some mp" and nf: "\<not> fixed mp"
    and link: "link_method mp = (Some rel, Some q)" and rel: "rel = ''greater'' \<or> rel = ''less''"
    and meth: "gen_method mp = ''uniform'' \<or> gen_method mp = ''log10''"
    and mq: "A q = Some mq" and r: "val mq = Some r"
    and range: "param_min mp \<le> param_max mp"
    and gr: "rel = ''greater'' \<longrightarrow> r \<le> param_max mp"
    and le: "rel = ''less'' \<longrightarrow> param_min mp \<le> r"
    and gen: "generateVal uniform A p g = Inr (A', g', v)"
  shows "\<exists>x. v = Some x \<and> (rel = ''greater'' \<longrightarrow> r \<le> x) \<and> (rel = ''less'' \<longrightarrow> x \<le> r)"
proof -
  define lo where "lo = (if rel = ''greater'' then max r (param_min mp) else param_min mp)"
  define hi where "hi = (if rel = ''greater'' then param_max mp else min (param_max mp) r)"
  have lb: "link_bounds A mp = Inr (lo, hi)"
    using link_bounds_linked [where A = A, OF link rel mq r] by (simp add: lo_def hi_def)
  have lohi: "lo \<le> hi" using rel range gr le by (auto simp: lo_def hi_def)
  have rlo: "rel = ''greater'' \<longrightarrow> r \<le> lo" by (simp add: lo_def)
  have hir: "rel = ''less'' \<longrightarrow> hi \<le> r" using rel by (auto simp: hi_def)
  show ?thesis
  proof (cases "gen_method mp = ''uniform''")
    case True
    obtain u g1 where u: "uniform g lo hi = (u, g1)" by (cases "uniform g lo hi") auto
    from unif lohi have "lo \<le> fst (uniform g lo hi) \<and> fst (uniform g lo hi) \<le> hi" by blast
    with u have "lo \<le> u" "u \<le> hi" by simp_all
    moreover from gen mp nf lb True u have "v = Some u"
      by (simp add: generateVal_def sum_bind_def)
    ultimately show ?thesis using rlo hir by auto
  next
    case False
    with meth have lg: "gen_method mp = ''log10''" by simp
    from gen mp nf lb False lg obtain llo lhi where
      llo: "np_log10 lo = Inr llo" and lhi: "np_log10 hi = Inr lhi" and
      v: "v = Some (10 powr fst (uniform g llo lhi))"
      by (auto simp: generateVal_def sum_bind_Inr Let_def case_prod_beta)
    from llo have lo0: "0 < lo" and llo': "llo = log 10 lo"
      by (auto simp: np_log10_def split: if_splits)
    from lhi have hi0: "0 < hi" and lhi': "lhi = log 10 hi"
      by (auto simp: np_log10_def split: if_splits)
    have "llo \<le> lhi" using lohi lo0 hi0 by (simp add: llo' lhi')
    with unif have "llo \<le> fst (uniform g llo lhi) \<and> fst (uniform g llo lhi) \<le> lhi" by blast
    then have b: "llo \<le> fst (uniform g llo lhi)" "fst (uniform g llo lhi) \<le> lhi" by simp_all
    have "10 powr llo \<le> 10 powr fst (uniform g llo lhi)"
      using b(1) by (intro powr_mono) simp_all
    then have 1: "lo \<le> 10 powr fst (uniform g llo lhi)" using lo0 by (simp add: llo')
    have "10 powr fst (uniform g llo lhi) \<le> 10 powr lhi"
      using b(2) by (intro powr_mono) simp_all
    then have 2: "10 powr fst (uniform g llo lhi) \<le> hi" using hi0 by (simp add: lhi')
    from v 1 2 rlo hir show ?thesis by auto
  qed
qed

text \<open>
  C6 (as the code has it). Let \<^verbatim>\<open>getConst\<close> run over the parameter list with a generator
  whose uniform draws land inside the requested bounds. Let \<open>p\<close> be a listed parameter
  linked to \<open>q\<close> by \<^verbatim>\<open>'greater'\<close> or \<^verbatim>\<open>'less'\<close>, with \<open>q\<close> not listed after \<open>p\<close>,
  and let \<^verbatim>\<open>getConst\<close> draw \<open>p\<close> anew: \<open>p\<close> is not fixed, its method is
  \<^verbatim>\<open>'uniform'\<close> or \<^verbatim>\<open>'log10'\<close>, and its value is \<^verbatim>\<open>None\<close>, out of range, or
  \<^verbatim>\<open>override\<close> is set. If the value \<open>r\<close> that \<open>q\<close> holds afterwards does not exceed the
  maximum of \<open>p\<close> (for \<^verbatim>\<open>'greater'\<close>; is not below its minimum for \<^verbatim>\<open>'less'\<close>), then
  \<open>p\<close> holds a value \<open>v\<close> with \<open>r \<le> v\<close> (respectively \<open>v \<le> r\<close>), and the returned
  constants carry the same values. The witness is \<^verbatim>\<open>PhysicalParameters()\<close> with
  \<^verbatim>\<open>override\<close> set: \<^verbatim>\<open>erosion_mass_max\<close> comes out at or above
  \<^verbatim>\<open>erosion_mass_min\<close>.
\<close>

theorem getConst_link_relation:
  fixes uniform :: "'g \<Rightarrow> real \<Rightarrow> real \<Rightarrow> real \<times> 'g"
  assumes run: "getConst_run uniform P local_state override erosion = Inr (c, P', g')"
    and unif: "\<forall>g lo hi. lo \<le> hi \<longrightarrow> lo \<le> fst (uniform g lo hi) \<and> fst (uniform g lo hi) \<le> hi"
    and order: "param_list P = pre @ p # post" "p \<notin> set pre" "p \<notin> set post" "q \<notin> set post"
      "q \<noteq> p"
    and linked: "attrs P p = Some mp" "link_method mp = (Some rel, Some q)"
      "rel = ''greater'' \<or> rel = ''less''"
    and drawn: "\<not> fixed mp" "needs_draw override mp"
      "gen_method mp = ''uniform'' \<or> gen_method mp = ''log10''"
    and range: "param_min mp \<le> param_max mp"
    and ref: "attrs P' q = Some mq" "val mq = Some r"
      "rel = ''greater'' \<longrightarrow> r \<le> param_max mp" "rel = ''less'' \<longrightarrow> param_min mp \<le> r"
  shows "\<exists>v. attrs P' p = Some (mp\<lparr>val := Some v\<rparr>)
           \<and> (p, Some v) \<in> set (sampled_params c)
           \<and> (rel = ''greater'' \<longrightarrow> r \<le> v) \<and> (rel = ''less'' \<longrightarrow> v \<le> r)
           \<and> (q \<in> set pre \<and> distinct pre \<longrightarrow> (q, Some r) \<in> set (sampled_params c))"
proof -
  from run obtain A3 c3 where
    loop: "getConst_loop uniform override (param_list P) (attrs P, local_state, []) = Inr (A3, g', c3)"
    and c: "sampled_params c = c3" and P': "attrs P' = A3"
    by (auto simp: getConst_run_def sum_bind_Inr)
  from loop order(1) obtain A1 g1 c1 where
    pre: "getConst_loop uniform override pre (attrs P, local_state, []) = Inr (A1, g1, c1)" and
    tail: "getConst_loop uniform override (p # post) (A1, g1, c1) = Inr (A3, g', c3)"
    by (auto simp: getConst_loop_append sum_bind_Inr)
  from getConst_loop_frame [OF pre] obtain new1 where
    fr1: "\<forall>m. m \<notin> set pre \<longrightarrow> A1 m = attrs P m" and
    c1: "c1 = new1" "map fst new1 = pre" and
    vals1: "distinct pre \<longrightarrow> (\<forall>m v. (m, v) \<in> set new1 \<longrightarrow> (\<exists>p'. A1 m = Some p' \<and> val p' = v))"
    by auto
  from fr1 order(2) linked(1) have A1p: "A1 p = Some mp" by simp
  from getConst_loop_Cons [OF tail] A1p drawn(2) obtain A2 g2 v where
    A2: "A2 = A1(p \<mapsto> mp\<lparr>val := v\<rparr>)" and
    gen: "generateVal uniform A1 p g1 = Inr (A2, g2, v)" and
    post: "getConst_loop uniform override post (A2, g2, c1 @ [(p, v)]) = Inr (A3, g', c3)"
    by auto
  from getConst_loop_frame [OF post] obtain new3 where
    fr3: "\<forall>m. m \<notin> set post \<longrightarrow> A3 m = A2 m" and c3: "c3 = (c1 @ [(p, v)]) @ new3"
    by blast
  have A3q: "A3 q = A1 q" using fr3 order(4,5) A2 by simp
  with ref(1) P' have A1q: "A1 q = Some mq" by simp
  from generateVal_linked [OF unif A1p drawn(1) linked(2,3) drawn(3) A1q ref(2) range ref(3,4) gen]
  obtain x where x: "v = Some x" "rel = ''greater'' \<longrightarrow> r \<le> x" "rel = ''less'' \<longrightarrow> x \<le> r"
    by blast
  have "A3 p = A2 p" using fr3 order(3) by simp
  with A2 x P' have 1: "attrs P' p = Some (mp\<lparr>val := Some x\<rparr>)" by simp
  have 2: "(p, Some x) \<in> set (sampled_params c)" using c c3 x by simp
  have 3: "(q, Some r) \<in> set (sampled_params c)" if "q \<in> set pre" "distinct pre"
  proof -
    from that(1) c1(2) have "q \<in> set (map fst new1)" by simp
    then obtain w where w: "(q, w) \<in> set new1" by auto
    with vals1 that(2) obtain p' where "A1 q = Some p'" "val p' = w" by blast
    with A1q ref(2) have "w = Some r" by simp
    with w c c3 c1 show ?thesis by simp
  qed
  from 1 2 3 x show ?thesis by (intro exI [of _ x]) simp
qed

lemma clamped_draw_in_bounds:
  "\<forall>g lo hi. lo \<le> hi \<longrightarrow>
     lo \<le> fst ((\<lambda>g lo hi. (max lo (min hi (hd g)), tl g)) g lo hi)
     \<and> fst ((\<lambda>g lo hi. (max lo (min hi (hd g)), tl g)) g lo (hi :: real)) \<le> hi"
  by auto

text \<open>
  The claim as stated fails for a linked parameter that is fixed: with
  \<^verbatim>\<open>erosion_mass_max\<close> fixed at its default \<open>1e-10\<close> (as the \<^verbatim>\<open>fixed\<close> argument of
  \<^verbatim>\<open>ErosionSimContainer\<close> allows) and the other nine parameters drawn in declaration
  order, every draw inside its bounds, \<^verbatim>\<open>erosion_mass_min\<close> is drawn as \<open>5e-10\<close>, which
  is below the maximum \<open>1e-7\<close> of \<^verbatim>\<open>erosion_mass_max\<close> and above its value. The
  generator here hands out the listed numbers, clamped to the requested bounds.
\<close>

theorem getConst_link_relation_counterexample:
  "getConst (\<lambda>g lo hi. (max lo (min hi (hd g)), tl g))
     ((PhysicalParameters_init [])\<lparr>attrs := (attrs (PhysicalParameters_init []))
        (''erosion_mass_max'' \<mapsto>
           (linkParam (MetParam_init (1 / 10 ^ 11) (1 / 10 ^ 7) ''log10'' (Some (1 / 10 ^ 10)))
              ''erosion_mass_min'' (Some ''greater''))\<lparr>fixed := True\<rparr>)\<rparr>)
     [log 10 (1 / 10 ^ 6), 30000, np_radians 45, 2000, 1 / 10 ^ 7, 100000, 5 / 10 ^ 7, 2,
        log 10 (5 / 10 ^ 10)] True True
   = Inr \<lparr>const_dens_co = [], P_0m = 840, lum_eff_type = 0, erosion_on = True,
            erosion_height_change = 0, disruption_on = False,
            sampled_params =
              [(''m_init'', Some (1 / 10 ^ 6)), (''v_init'', Some 30000),
               (''zenith_angle'', Some (np_radians 45)), (''rho'', Some 2000),
               (''sigma'', Some (1 / 10 ^ 7)), (''erosion_height_start'', Some 100000),
               (''erosion_coeff'', Some (5 / 10 ^ 7)), (''erosion_mass_index'', Some 2),
               (''erosion_mass_min'', Some (5 / 10 ^ 10)),
               (''erosion_mass_max'', Some (1 / 10 ^ 10))]\<rparr>
   \<and> \<not> (5 / 10 ^ 10 :: real) \<le> 1 / 10 ^ 10
   \<and> (5 / 10 ^ 10 :: real) \<le> 1 / 10 ^ 7"
  by (simp add: getConst_def getConst_run_def PhysicalParameters_init_def PhysicalParameters_attrs_def
      MetParam_init_def linkParam_def needs_draw_def generateVal_def link_bounds_def sum_bind_def
      np_log10_def np_radians_def min_def max_def)

lemma getConst_run_example:
  "\<exists>c P' g'.
     getConst_run (\<lambda>g lo hi. (max lo (min hi (hd g)), tl g)) (PhysicalParameters_init [])
       [log 10 (1 / 10 ^ 6), 30000, np_radians 45, 2000, 1 / 10 ^ 7, 100000, 5 / 10 ^ 7, 2,
        log 10 (5 / 10 ^ 10), log 10 (1 / 10 ^ 8)] True True = Inr (c, P', g')
     \<and> c = \<lparr>const_dens_co = [], P_0m = 840, lum_eff_type = 0, erosion_on = True,
            erosion_height_change = 0, disruption_on = False,
            sampled_params =
              [(''m_init'', Some (1 / 10 ^ 6)), (''v_init'', Some 30000),
               (''zenith_angle'', Some (np_radians 45)), (''rho'', Some 2000),
               (''sigma'', Some (1 / 10 ^ 7)), (''erosion_height_start'', Some 100000),
               (''erosion_coeff'', Some (5 / 10 ^ 7)), (''erosion_mass_index'', Some 2),
               (''erosion_mass_min'', Some (5 / 10 ^ 10)),
               (''erosion_mass_max'', Some (1 / 10 ^ 8))]\<rparr>
     \<and> attrs P' ''erosion_mass_min''
         = Some (MetParam_init (1 / 10 ^ 12) (1 / 10 ^ 9) ''log10'' (Some (5 / 10 ^ 10)))"
  by (simp add: getConst_run_def PhysicalParameters_init_def PhysicalParameters_attrs_def
      MetParam_init_def linkParam_def needs_draw_def generateVal_def link_bounds_def sum_bind_def
      np_log10_def np_radians_def min_def max_def)

theorem getConst_link_relation_witness:
  "getConst (\<lambda>g lo hi. (max lo (min hi (hd g)), tl g)) (PhysicalParameters_init [])
     [log 10 (1 / 10 ^ 6), 30000, np_radians 45, 2000, 1 / 10 ^ 7, 100000, 5 / 10 ^ 7, 2,
        log 10 (5 / 10 ^ 10), log 10 (1 / 10 ^ 8)] True True
   = Inr \<lparr>const_dens_co = [], P_0m = 840, lum_eff_type = 0, erosion_on = True,
            erosion_height_change = 0, disruption_on = False,
            sampled_params =
              [(''m_init'', Some (1 / 10 ^ 6)), (''v_init'', Some 30000),
               (''zenith_angle'', Some (np_radians 45)), (''rho'', Some 2000),
               (''sigma'', Some (1 / 10 ^ 7)), (''erosion_height_start'', Some 100000),
               (''erosion_coeff'', Some (5 / 10 ^ 7)), (''erosion_mass_index'', Some 2),
               (''erosion_mass_min'', Some (5 / 10 ^ 10)),
               (''erosion_mass_max'', Some (1 / 10 ^ 8))]\<rparr>
   \<and> (5 / 10 ^ 10 :: real) \<le> 1 / 10 ^ 8"
proof -
  let ?U = "(\<lambda>g lo hi. (max lo (min hi (hd g)), tl g)) :: real list \<Rightarrow> real \<Rightarrow> real \<Rightarrow> real \<times> real list"
  let ?P = "PhysicalParameters_init []"
  let ?mp = "linkParam (MetParam_init (1 / 10 ^ 11) (1 / 10 ^ 7) ''log10'' (Some (1 / 10 ^ 10)))
               ''erosion_mass_min'' (Some ''greater'')"
  let ?mq = "MetParam_init (1 / 10 ^ 12) (1 / 10 ^ 9) ''log10'' (Some (5 / 10 ^ 10))"
  from getConst_run_example obtain c P' g' where
    run: "getConst_run ?U ?P
            [log 10 (1 / 10 ^ 6), 30000, np_radians 45, 2000, 1 / 10 ^ 7, 100000, 5 / 10 ^ 7, 2,
        log 10 (5 / 10 ^ 10), log 10 (1 / 10 ^ 8)] True True = Inr (c, P', g')" and
    c: "c = \<lparr>const_dens_co = [], P_0m = 840, lum_eff_type = 0, erosion_on = True,
            erosion_height_change = 0, disruption_on = False,
            sampled_params =
              [(''m_init'', Some (1 / 10 ^ 6)), (''v_init'', Some 30000),
               (''zenith_angle'', Some (np_radians 45)), (''rho'', Some 2000),
               (''sigma'', Some (1 / 10 ^ 7)), (''erosion_height_start'', Some 100000),
               (''erosion_coeff'', Some (5 / 10 ^ 7)), (''erosion_mass_index'', Some 2),
               (''erosion_mass_min'', Some (5 / 10 ^ 10)),
               (''erosion_mass_max'', Some (1 / 10 ^ 8))]\<rparr>" and
    q: "attrs P' ''erosion_mass_min'' = Some ?mq"
    by blast
  have order: "param_list ?P =
      [''m_init'', ''v_init'', ''zenith_angle'', ''rho'', ''sigma'', ''erosion_height_start'',
       ''erosion_coeff'', ''erosion_mass_index'', ''erosion_mass_min''] @ ''erosion_mass_max'' # []"
    by (simp add: PhysicalParameters_init_def PhysicalParameters_attrs_def)
  have notpre: "''erosion_mass_max'' \<notin> set [''m_init'', ''v_init'', ''zenith_angle'', ''rho'', ''sigma'',
       ''erosion_height_start'', ''erosion_coeff'', ''erosion_mass_index'', ''erosion_mass_min'']"
    by simp
  have notpost: "''erosion_mass_max'' \<notin> set []" "''erosion_mass_min'' \<notin> set []"
    "''erosion_mass_min'' \<noteq> ''erosion_mass_max''"
    by simp_all
  have mp: "attrs ?P ''erosion_mass_max'' = Some ?mp"
    by (simp add: PhysicalParameters_init_def PhysicalParameters_attrs_def)
  have link: "link_method ?mp = (Some ''greater'', Some ''erosion_mass_min'')"
    "''greater'' = ''greater'' \<or> ''greater'' = ''less''"
    by (simp_all add: linkParam_def)
  have drawn: "\<not> fixed ?mp" "needs_draw True ?mp"
    "gen_method ?mp = ''uniform'' \<or> gen_method ?mp = ''log10''"
    by (simp_all add: linkParam_def MetParam_init_def needs_draw_def)
  have range: "param_min ?mp \<le> param_max ?mp"
    by (simp add: linkParam_def MetParam_init_def)
  have r: "val ?mq = Some (5 / 10 ^ 10)" by (simp add: MetParam_init_def)
  have ref: "''greater'' = ''greater'' \<longrightarrow> (5 / 10 ^ 10 :: real) \<le> param_max ?mp"
    "''greater'' = ''less'' \<longrightarrow> param_min ?mp \<le> (5 / 10 ^ 10 :: real)"
    by (simp_all add: linkParam_def MetParam_init_def)
  from getConst_link_relation [OF run clamped_draw_in_bounds order notpre notpost mp link drawn
      range q r ref]
  obtain v where v: "(''erosion_mass_max'', Some v) \<in> set (sampled_params c)"
    "(5 / 10 ^ 10 :: real) \<le> v"
    by auto
  from v(1) c have "v = 1 / 10 ^ 8" by simp
  with v(2) have le: "(5 / 10 ^ 10 :: real) \<le> 1 / 10 ^ 8" by simp
  from run c have "getConst ?U ?P
            [log 10 (1 / 10 ^ 6), 30000, np_radians 45, 2000, 1 / 10 ^ 7, 100000, 5 / 10 ^ 7, 2,
        log 10 (5 / 10 ^ 10), log 10 (1 / 10 ^ 8)] True True = Inr \<lparr>const_dens_co = [], P_0m = 840, lum_eff_type = 0, erosion_on = True,
            erosion_height_change = 0, disruption_on = False,
            sampled_params =
              [(''m_init'', Some (1 / 10 ^ 6)), (''v_init'', Some 30000),
               (''zenith_angle'', Some (np_radians 45)), (''rho'', Some 2000),
               (''sigma'', Some (1 / 10 ^ 7)), (''erosion_height_start'', Some 100000),
               (''erosion_coeff'', Some (5 / 10 ^ 7)), (''erosion_mass_index'', Some 2),
               (''erosion_mass_min'', Some (5 / 10 ^ 10)),
               (''erosion_mass_max'', Some (1 / 10 ^ 8))]\<rparr>"
    by (simp add: getConst_def sum_bind_def)
  with le show ?thesis by simp
qed

end
